theory Spec2Isabelle
  imports Complex_Main "HOL-Library.AList" "HOL-Library.Log_Nat"
begin

section \<open>SLA metric events (scripts/zendesk_server.py, the Python side)\<close>

text \<open>
  The metric events arrive as parsed JSON. A JSON object read with \<open>.get\<close> or tested with
  \<open>in\<close> has optional keys, so every such key is an \<open>option\<close> field: \<open>None\<close> is the absent
  key. The values are taken to be of the type Zendesk documents for them (integers for the
  targets, a boolean for \<open>business_hours\<close>, strings for titles and times).
\<close>

record policy_ref =
  pol_title :: "string option"
  pol_id :: "int option"

record sla_payload =
  target_in_seconds :: "int option"
  target :: "int option"
  payload_business_hours :: "bool option"
  payload_policy :: "policy_ref option"

record event =
  e_type :: "string option"
  e_sla :: "sla_payload option"
  e_time :: "string option"

text \<open>
  The dictionary \<open>sla_info\<close> that \<open>parse_sla_metrics\<close> returns. It crosses the wire as JSON
  and is the object \<open>ticket.sla_metrics\<close> of the dashboard script.
\<close>

record sla_info =
  metric_type :: string
  target_seconds :: int
  business_hours :: bool
  policy_title :: string
  policy_id :: "int option"
  fulfilled :: bool
  breached :: bool
  breach_time :: "string option"

text \<open>
  \<open>sla_data.get('target_in_seconds', sla_data.get('target', 0) * 60)\<close>
\<close>

definition target_of :: "sla_payload \<Rightarrow> int" where
  "target_of sla_data =
     (case target_in_seconds sla_data of
        Some s \<Rightarrow> s
      | None \<Rightarrow> (case target sla_data of Some m \<Rightarrow> m | None \<Rightarrow> 0) * 60)"

text \<open>
  \<open>sla_data.get('policy', {}).get('title', 'Unknown')\<close> and
  \<open>sla_data.get('policy', {}).get('id')\<close>
\<close>

definition policy_title_of :: "sla_payload \<Rightarrow> string" where
  "policy_title_of sla_data =
     (case payload_policy sla_data of
        None \<Rightarrow> ''Unknown''
      | Some p \<Rightarrow> (case pol_title p of None \<Rightarrow> ''Unknown'' | Some s \<Rightarrow> s))"

definition policy_id_of :: "sla_payload \<Rightarrow> int option" where
  "policy_id_of sla_data =
     (case payload_policy sla_data of None \<Rightarrow> None | Some p \<Rightarrow> pol_id p)"

text \<open>
  The first inner loop: the first event with \<open>event.get('type') == 'apply_sla' and 'sla' in
  event\<close> ends the loop (\<open>break\<close>); its payload \<open>event['sla']\<close> is what the five entries of
  \<open>sla_info\<close> are read from.
\<close>

fun find_apply_sla :: "event list \<Rightarrow> sla_payload option" where
  "find_apply_sla [] = None"
| "find_apply_sla (ev # events) =
     (if e_type ev = Some ''apply_sla'' \<and> e_sla ev \<noteq> None then e_sla ev
      else find_apply_sla events)"

text \<open>
  The second inner loop over the same events, carrying the two local variables
  \<open>fulfilled\<close> and \<open>breach_time\<close> (primed here, the plain names being the record's fields).
\<close>

fun scan_events :: "event list \<Rightarrow> bool \<times> string option \<Rightarrow> bool \<times> string option" where
  "scan_events [] acc = acc"
| "scan_events (ev # events) (fulfilled', breach_time') =
     (if e_type ev = Some ''fulfill'' then scan_events events (True, breach_time')
      else if e_type ev = Some ''breach'' then scan_events events (fulfilled', e_time ev)
      else scan_events events (fulfilled', breach_time'))"

text \<open>
  What one iteration of the outer loop computes for the stream \<open>events\<close> of \<open>metric_type\<close>:
  nothing when no usable \<open>apply_sla\<close> event was found (\<open>sla_info\<close> stays \<open>None\<close>), the finished
  dictionary otherwise. The source fills the dictionary in two steps; the record is built
  once both loops have run.
\<close>

definition stream_info :: "string \<Rightarrow> event list \<Rightarrow> sla_info option" where
  "stream_info mt events =
     (case find_apply_sla events of
        None \<Rightarrow> None
      | Some sla_data \<Rightarrow>
          (case scan_events events (False, None) of
             (fulfilled', breach_time') \<Rightarrow>
               Some \<lparr> metric_type = mt,
                      target_seconds = target_of sla_data,
                      business_hours =
                        (case payload_business_hours sla_data of None \<Rightarrow> False | Some b \<Rightarrow> b),
                      policy_title = policy_title_of sla_data,
                      policy_id = policy_id_of sla_data,
                      fulfilled = fulfilled',
                      breached = (breach_time' \<noteq> None),
                      breach_time = breach_time' \<rparr>))"

text \<open>
  The outer loop \<open>for metric_type in ['resolution_time', 'reply_time']\<close>. The dictionary
  \<open>metric_data\<close> is an association list read with \<open>map_of\<close>. A stream that is absent
  (\<open>continue\<close>) or yields no \<open>sla_info\<close> lets the loop go on; the two \<open>return\<close> statements
  are the two tests on \<open>metric_type\<close>.
\<close>

fun parse_streams :: "string list \<Rightarrow> (string \<times> event list) list \<Rightarrow> sla_info option" where
  "parse_streams [] metric_data = None"
| "parse_streams (mt # rest) metric_data =
     (case map_of metric_data mt of
        None \<Rightarrow> parse_streams rest metric_data
      | Some events \<Rightarrow>
          (case stream_info mt events of
             None \<Rightarrow> parse_streams rest metric_data
           | Some info \<Rightarrow>
               if mt = ''resolution_time'' then Some info
               else if mt = ''reply_time'' then Some info
               else parse_streams rest metric_data))"

text \<open>
  \<open>parse_sla_metrics(self, metric_data, ticket_status)\<close>: \<open>not metric_data\<close> holds of \<open>None\<close>
  and of the empty dictionary. The second parameter is not read.
\<close>

definition parse_sla_metrics ::
  "(string \<times> event list) list option \<Rightarrow> string option \<Rightarrow> sla_info option" where
  "parse_sla_metrics metric_data ticket_status =
     (case metric_data of
        None \<Rightarrow> None
      | Some md \<Rightarrow>
          if md = [] then None
          else parse_streams [''resolution_time'', ''reply_time''] md)"

section \<open>Tickets\<close>

text \<open>
  A ticket is one JSON object of the Zendesk search result. A key read with a default
  (\<open>ticket.get('priority', 'none')\<close>) tells the absent key from the JSON \<open>null\<close>, so such
  keys have three states. \<open>created_at\<close> holds the time value of
  \<open>new Date(ticket.created_at)\<close>: \<open>None\<close> is the invalid date that a missing or unreadable
  timestamp gives. \<open>sla_metrics\<close> is \<open>None\<close> for the absent key and for \<open>null\<close>.

  The time value of a JavaScript \<open>Date\<close> is a whole number of milliseconds since the
  epoch, of magnitude at most \<open>8.64 * 10^15\<close>; a date outside of this range is invalid.
\<close>

datatype 'a field = Absent | Null | Val 'a

typedef time_value = "{n :: int. \<bar>n\<bar> \<le> 8640000000000000}"
  morphisms ms time_of_ms
  by (rule exI [of _ 0]) simp

record ticket =
  ticket_id :: "int option"
  ticket_status :: "string field"
  priority :: "string field"
  created_at :: "time_value option"
  assignee_id :: "int option"
  requester_id :: "int option"
  ticket_type :: "string field"
  sla_metrics :: "sla_info option"

section \<open>The dashboard script (scripts/zendesk_server.py, the JavaScript side)\<close>

subsection \<open>Numbers\<close>

text \<open>
  A JavaScript number is an IEEE 754 double: a rational that the format can represent, one
  of the two infinities, or NaN. The negative zero is outside the model: a zero counts as
  \<open>+0\<close>.

  \<open>rne\<close> rounds to the nearest integer, a tie to the even one. \<open>expo x\<close> is the exponent of
  \<open>x\<close>, the integer \<open>e\<close> with \<open>2^e \<le> |x| < 2^(e+1)\<close>. \<open>to_double\<close> rounds a rational to the
  nearest double as the format asks: the significand has 53 bits, the exponent is at
  least -1022 (gradual underflow below), and a result of magnitude \<open>2^1024\<close> is an
  infinity.
\<close>

datatype jsnum = Num rat | PosInf | NegInf | NaN

definition rne :: "rat \<Rightarrow> int" where
  "rne y =
     (let f = \<lfloor>y\<rfloor>; r = y - of_int f
      in if r < 1 / 2 then f
         else if 1 / 2 < r then f + 1
         else if even f then f else f + 1)"

definition expo :: "rat \<Rightarrow> int" where
  "expo x =
     (case quotient_of \<bar>x\<bar> of
        (p, q) \<Rightarrow>
          (let e = bitlen p - bitlen q
           in if power_int 2 e \<le> \<bar>x\<bar> then e else e - 1))"

definition to_double :: "rat \<Rightarrow> jsnum" where
  "to_double x =
     (if x = 0 then Num 0
      else
        (let q = power_int 2 (max (expo x) (- 1022) - 52);
             y = of_int (rne (x / q)) * q
         in if 2 ^ 1024 \<le> y then PosInf
            else if y \<le> - (2 ^ 1024) then NegInf
            else Num y))"

text \<open>
  The operators \<open>-\<close>, \<open>*\<close> and \<open>/\<close>: on two finite numbers the exact result, rounded.
\<close>

fun js_sub :: "jsnum \<Rightarrow> jsnum \<Rightarrow> jsnum" where
  "js_sub (Num a) (Num b) = to_double (a - b)"
| "js_sub NaN y = NaN"
| "js_sub x NaN = NaN"
| "js_sub PosInf PosInf = NaN"
| "js_sub NegInf NegInf = NaN"
| "js_sub PosInf y = PosInf"
| "js_sub NegInf y = NegInf"
| "js_sub (Num a) PosInf = NegInf"
| "js_sub (Num a) NegInf = PosInf"

fun js_mul :: "jsnum \<Rightarrow> jsnum \<Rightarrow> jsnum" where
  "js_mul (Num a) (Num b) = to_double (a * b)"
| "js_mul NaN y = NaN"
| "js_mul x NaN = NaN"
| "js_mul PosInf (Num b) = (if 0 < b then PosInf else if b < 0 then NegInf else NaN)"
| "js_mul NegInf (Num b) = (if 0 < b then NegInf else if b < 0 then PosInf else NaN)"
| "js_mul (Num a) PosInf = (if 0 < a then PosInf else if a < 0 then NegInf else NaN)"
| "js_mul (Num a) NegInf = (if 0 < a then NegInf else if a < 0 then PosInf else NaN)"
| "js_mul PosInf PosInf = PosInf"
| "js_mul NegInf NegInf = PosInf"
| "js_mul PosInf NegInf = NegInf"
| "js_mul NegInf PosInf = NegInf"

fun js_div :: "jsnum \<Rightarrow> jsnum \<Rightarrow> jsnum" where
  "js_div (Num a) (Num b) =
     (if b \<noteq> 0 then to_double (a / b)
      else if 0 < a then PosInf else if a < 0 then NegInf else NaN)"
| "js_div NaN y = NaN"
| "js_div x NaN = NaN"
| "js_div (Num a) y = Num 0"
| "js_div PosInf (Num b) = (if 0 \<le> b then PosInf else NegInf)"
| "js_div NegInf (Num b) = (if 0 \<le> b then NegInf else PosInf)"
| "js_div x y = NaN"

text \<open>The comparisons \<open><=\<close> and \<open><\<close>: false as soon as one side is NaN.\<close>

fun js_le :: "jsnum \<Rightarrow> jsnum \<Rightarrow> bool" where
  "js_le (Num a) (Num b) = (a \<le> b)"
| "js_le NaN y = False"
| "js_le x NaN = False"
| "js_le NegInf y = True"
| "js_le x PosInf = True"
| "js_le x y = False"

fun js_lt :: "jsnum \<Rightarrow> jsnum \<Rightarrow> bool" where
  "js_lt (Num a) (Num b) = (a < b)"
| "js_lt NaN y = False"
| "js_lt x NaN = False"
| "js_lt PosInf y = False"
| "js_lt x NegInf = False"
| "js_lt x y = True"

fun Math_abs :: "jsnum \<Rightarrow> jsnum" where
  "Math_abs (Num a) = Num \<bar>a\<bar>"
| "Math_abs NaN = NaN"
| "Math_abs x = PosInf"

text \<open>
  \<open>Math.round\<close> gives the nearest integer, a half upwards; the nearest integer of a double
  is a double.
\<close>

fun Math_round :: "jsnum \<Rightarrow> jsnum" where
  "Math_round (Num a) = Num (of_int \<lfloor>a + 1 / 2\<rfloor>)"
| "Math_round x = x"

text \<open>
  The decimal text of a number inside a template literal. It is applied to the results of
  \<open>Math.round\<close> only, which are integers; the exponent notation of integers from
  \<open>10^21\<close> on is outside the model.
\<close>

definition digit_char :: "nat \<Rightarrow> char" where
  "digit_char d = ''0123456789'' ! d"

function digits :: "nat \<Rightarrow> string" where
  "digits n = (if n < 10 then [digit_char n] else digits (n div 10) @ [digit_char (n mod 10)])"
  by pat_completeness auto
termination
  by (relation "measure id") auto

declare digits.simps [simp del]

fun js_string :: "jsnum \<Rightarrow> string" where
  "js_string (Num a) = (if a < 0 then ''-'' @ digits (nat \<lfloor>- a\<rfloor>) else digits (nat \<lfloor>a\<rfloor>))"
| "js_string PosInf = ''Infinity''"
| "js_string NegInf = ''-Infinity''"
| "js_string NaN = ''NaN''"

subsection \<open>getSLAStatus\<close>

text \<open>
  The object that \<open>getSLAStatus\<close> returns: \<open>remaining\<close> is \<open>None\<close> for \<open>null\<close>; a property
  that a branch does not set is \<open>undefined\<close>, here \<open>None\<close>.
\<close>

record sla_result =
  status :: string
  label :: string
  remaining :: "jsnum option"
  overdue :: "bool option"
  policy :: "string option"
  metricType :: "string option"
  result_fulfilled :: "bool option"

text \<open>\<open>['solved', 'closed'].includes(ticket.status)\<close>\<close>

definition solved_or_closed :: "string field \<Rightarrow> bool" where
  "solved_or_closed s = (s = Val ''solved'' \<or> s = Val ''closed'')"

text \<open>
  \<open>getSLAStatus(ticket)\<close>. The clock reading \<open>new Date()\<close> is the parameter \<open>now\<close>. The
  target of the evaluation is an integer in the JSON text, which JavaScript reads as the
  nearest double. The test \<open>slaMetrics && slaMetrics.target_seconds\<close> holds when the
  evaluation is there and its target is not zero (the double of an integer other than
  zero is not zero).
\<close>

definition no_sla :: sla_result where
  "no_sla =
     \<lparr> status = ''none'', label = ''No SLA'', remaining = None,
       overdue = None, policy = None, metricType = None, result_fulfilled = None \<rparr>"

text \<open>
  The four constants of the function body that are numbers, each as a function of what it
  is computed from: \<open>ageMinutes\<close> (from \<open>now\<close> and \<open>created\<close>), \<open>slaTargetMinutes\<close>,
  \<open>remaining\<close> and \<open>percentRemaining\<close>.
\<close>

definition ageMinutes :: "time_value \<Rightarrow> ticket \<Rightarrow> jsnum" where
  "ageMinutes now t =
     (let created = (case created_at t of None \<Rightarrow> NaN | Some c \<Rightarrow> Num (of_int (ms c)))
      in js_div (js_sub (Num (of_int (ms now))) created) (Num (1000 * 60)))"

definition slaTargetMinutes :: "sla_info \<Rightarrow> jsnum" where
  "slaTargetMinutes m = js_div (to_double (of_int (target_seconds m))) (Num 60)"

definition remaining_minutes :: "time_value \<Rightarrow> ticket \<Rightarrow> sla_info \<Rightarrow> jsnum" where
  "remaining_minutes now t m = js_sub (slaTargetMinutes m) (ageMinutes now t)"

definition percentRemaining :: "time_value \<Rightarrow> ticket \<Rightarrow> sla_info \<Rightarrow> jsnum" where
  "percentRemaining now t m =
     js_mul (js_div (remaining_minutes now t m) (slaTargetMinutes m)) (Num 100)"

definition getSLAStatus :: "time_value \<Rightarrow> ticket \<Rightarrow> sla_result" where
  "getSLAStatus now t =
     (let slaMetrics = sla_metrics t
      in
      if solved_or_closed (ticket_status t) then
        (case slaMetrics of
           Some m \<Rightarrow>
             if breached m then
               \<lparr> status = ''breach'', label = ''Breached'', remaining = None,
                 overdue = None, policy = None, metricType = Some (metric_type m),
                 result_fulfilled = Some (fulfilled m) \<rparr>
             else
               \<lparr> status = ''ok'', label = ''Met'', remaining = None,
                 overdue = None, policy = None, metricType = Some (metric_type m),
                 result_fulfilled = Some (fulfilled m) \<rparr>
         | None \<Rightarrow>
             \<lparr> status = ''ok'', label = ''Resolved'', remaining = None,
               overdue = None, policy = None, metricType = None,
               result_fulfilled = None \<rparr>)
      else
        (case slaMetrics of
           None \<Rightarrow> no_sla
         | Some m \<Rightarrow>
             if target_seconds m = 0 then no_sla
             else
               (let remaining' = remaining_minutes now t m;
                    metricLabel =
                      (if metric_type m = ''resolution_time'' then ''Resolution''
                       else ''Reply'')
                in
                if breached m \<or> js_le remaining' (Num 0) then
                  \<lparr> status = ''breach'', label = ''Breached'',
                    remaining = Some (Math_abs remaining'), overdue = Some True,
                    policy = Some (policy_title m), metricType = Some metricLabel,
                    result_fulfilled = None \<rparr>
                else if js_le (percentRemaining now t m) (Num 25) then
                  \<lparr> status = ''warning'', label = ''At Risk'',
                    remaining = Some remaining', overdue = Some False,
                    policy = Some (policy_title m), metricType = Some metricLabel,
                    result_fulfilled = None \<rparr>
                else
                  \<lparr> status = ''ok'', label = ''On Track'',
                    remaining = Some remaining', overdue = Some False,
                    policy = Some (policy_title m), metricType = Some metricLabel,
                    result_fulfilled = None \<rparr>)))"

subsection \<open>renderSLABadge\<close>

text \<open>
  \<open>formatSLATime(minutes)\<close>, with \<open>`${Math.round(x)}m`\<close> as the text of the rounded
  number followed by the unit.
\<close>

definition formatSLATime :: "jsnum \<Rightarrow> string" where
  "formatSLATime minutes =
     (if js_lt minutes (Num 60) then js_string (Math_round minutes) @ ''m''
      else if js_lt minutes (Num 1440)
        then js_string (Math_round (js_div minutes (Num 60))) @ ''h''
      else js_string (Math_round (js_div minutes (Num 1440))) @ ''d'')"

text \<open>\<open>tooltipParts.join(', ')\<close>\<close>

fun join :: "string \<Rightarrow> string list \<Rightarrow> string" where
  "join sep [] = []"
| "join sep [x] = x"
| "join sep (x # y # ys) = x @ sep @ join sep (y # ys)"

text \<open>
  \<open>renderSLABadge(ticket)\<close> returns the HTML of the badge, the empty string when the badge
  is hidden. A string is true when it is not empty; \<open>sla.overdue\<close> is true when it is set
  and \<open>true\<close>. The double quote of the HTML attributes is the character \<open>0x22\<close>.
\<close>

definition renderSLABadge :: "time_value \<Rightarrow> ticket \<Rightarrow> string" where
  "renderSLABadge now t =
     (let sla = getSLAStatus now t in
      if status sla = ''breach'' \<and> metricType sla \<noteq> Some ''Resolution'' then []
      else
        (let timeText =
               (case remaining sla of
                  Some r \<Rightarrow>
                    if overdue sla = Some True then ''+'' @ formatSLATime r
                    else formatSLATime r
                | None \<Rightarrow> []);
             badgeText =
               (if timeText \<noteq> [] then label sla @ '' ('' @ timeText @ '')''
                else label sla);
             tooltipParts =
               (case policy sla of
                  Some p \<Rightarrow> if p \<noteq> [] then [''Policy: '' @ p] else []
                | None \<Rightarrow> []) @
               (case metricType sla of
                  Some mt \<Rightarrow> if mt \<noteq> [] then [''Metric: '' @ mt] else []
                | None \<Rightarrow> []);
             titleAttr =
               (if tooltipParts \<noteq> []
                then ''title='' @ [CHR 0x22] @ join '', '' tooltipParts @ [CHR 0x22]
                else [])
         in ''<span class='' @ [CHR 0x22] @ ''sla-badge sla-'' @ status sla @ [CHR 0x22]
              @ '' '' @ titleAttr @ ''>'' @ badgeText @ ''</span>''))"

subsection \<open>calculateStats\<close>

text \<open>
  The object \<open>stats\<close>. Its number-valued properties, those the literal sets up and those
  that \<open>stats[priority]\<close> and \<open>stats[status]\<close> add, are one association list; the two
  nested objects \<open>byAssignee\<close> and \<open>sla\<close> are fields of their own. A priority or status
  string that is the name of a nested object or of an inherited property of \<open>Object\<close> is
  outside the model: the values are Zendesk's.
\<close>

record sla_buckets =
  sla_breached :: nat
  sla_atRisk :: nat
  sla_onTrack :: nat

record assignee_entry =
  a_total :: nat
  a_urgent :: nat
  a_open :: nat

record stats =
  numbers :: "(string \<times> nat) list"
  byAssignee :: "(int \<times> assignee_entry) list"
  sla :: sla_buckets

text \<open>\<open>stats[k] = (stats[k] || 0) + 1\<close>, and \<open>stats.unassigned++\<close>.\<close>

definition bump :: "string \<Rightarrow> (string \<times> nat) list \<Rightarrow> (string \<times> nat) list" where
  "bump k ns = AList.update k ((case map_of ns k of None \<Rightarrow> 0 | Some v \<Rightarrow> v) + 1) ns"

text \<open>\<open>ticket.priority || 'none'\<close>: the empty string is false as well.\<close>

definition or_default :: "string field \<Rightarrow> string \<Rightarrow> string" where
  "or_default f d = (case f of Val s \<Rightarrow> if s = [] then d else s | _ \<Rightarrow> d)"

text \<open>
  The lines that count the ticket for its assignee.
\<close>

definition count_assignee ::
  "int \<Rightarrow> string \<Rightarrow> string \<Rightarrow> (int \<times> assignee_entry) list \<Rightarrow> (int \<times> assignee_entry) list"
  where
  "count_assignee assignee priority' status' by_a =
     (let e = (case map_of by_a assignee of
                 None \<Rightarrow> \<lparr> a_total = 0, a_urgent = 0, a_open = 0 \<rparr>
               | Some e \<Rightarrow> e);
          e1 = e\<lparr> a_total := a_total e + 1 \<rparr>;
          e2 = (if priority' = ''urgent'' then e1\<lparr> a_urgent := a_urgent e1 + 1 \<rparr> else e1);
          e3 = (if status' \<in> set [''new'', ''open'', ''pending'']
                then e2\<lparr> a_open := a_open e2 + 1 \<rparr> else e2)
      in AList.update assignee e3 by_a)"

text \<open>
  The body of \<open>tickets.forEach\<close> for one ticket; \<open>now\<close> is the clock reading of the call of
  \<open>getSLAStatus\<close> that this ticket causes. \<open>if (assignee)\<close> holds for an id other than
  zero.
\<close>

definition count_ticket :: "time_value \<Rightarrow> ticket \<Rightarrow> stats \<Rightarrow> stats" where
  "count_ticket now t st =
     (let priority' = or_default (priority t) ''none'';
          status' = or_default (ticket_status t) ''unknown'';
          st1 = st\<lparr> numbers := bump status' (bump priority' (numbers st)) \<rparr>;
          st2 =
            (if \<not> (status' = ''solved'' \<or> status' = ''closed'') then
               (let sla' = getSLAStatus now t;
                    isResolutionSLA =
                      (case sla_metrics t of
                         None \<Rightarrow> False
                       | Some m \<Rightarrow> metric_type m = ''resolution_time'');
                    b = sla st1
                in
                if status sla' = ''breach'' \<and> isResolutionSLA
                  then st1\<lparr> sla := b\<lparr> sla_breached := sla_breached b + 1 \<rparr> \<rparr>
                else if status sla' = ''warning'' \<and> isResolutionSLA
                  then st1\<lparr> sla := b\<lparr> sla_atRisk := sla_atRisk b + 1 \<rparr> \<rparr>
                else if isResolutionSLA
                  then st1\<lparr> sla := b\<lparr> sla_onTrack := sla_onTrack b + 1 \<rparr> \<rparr>
                else st1)
             else st1)
      in
      case assignee_id t of
        Some a \<Rightarrow>
          if a \<noteq> 0
          then st2\<lparr> byAssignee := count_assignee a priority' status' (byAssignee st2) \<rparr>
          else st2\<lparr> numbers := bump ''unassigned'' (numbers st2) \<rparr>
      | None \<Rightarrow> st2\<lparr> numbers := bump ''unassigned'' (numbers st2) \<rparr>)"

text \<open>
  \<open>calculateStats(tickets)\<close>. Each ticket comes with the clock reading of its turn, since
  \<open>getSLAStatus\<close> reads the clock whenever it is called.
\<close>

definition initial_stats :: "nat \<Rightarrow> stats" where
  "initial_stats n =
     \<lparr> numbers =
         [(''total'', n), (''urgent'', 0), (''high'', 0), (''normal'', 0), (''low'', 0),
          (''new'', 0), (''open'', 0), (''pending'', 0), (''solved'', 0), (''closed'', 0),
          (''unassigned'', 0)],
       byAssignee = [],
       sla = \<lparr> sla_breached = 0, sla_atRisk = 0, sla_onTrack = 0 \<rparr> \<rparr>"

definition calculateStats :: "(time_value \<times> ticket) list \<Rightarrow> stats" where
  "calculateStats tickets =
     fold (\<lambda>(now, t) st. count_ticket now t st) tickets (initial_stats (length tickets))"

section \<open>The terminal monitor (scripts/zendesk_monitor.py)\<close>

text \<open>
  The exceptions that the two methods can raise: \<open>KeyError\<close> with the key that was not
  found (\<open>None\<close> is Python's \<open>None\<close>), and \<open>TypeError\<close>.
\<close>

datatype error = KeyError "string option" | TypeError

text \<open>
  \<open>ticket.get(k)\<close> gives \<open>None\<close> for an absent key and for \<open>null\<close>; \<open>ticket.get(k, d)\<close>
  gives the default for an absent key only.
\<close>

definition get :: "'a field \<Rightarrow> 'a option" where
  "get f = (case f of Val v \<Rightarrow> Some v | _ \<Rightarrow> None)"

definition get_or :: "'a field \<Rightarrow> 'a \<Rightarrow> 'a option" where
  "get_or f d = (case f of Absent \<Rightarrow> Some d | Null \<Rightarrow> None | Val v \<Rightarrow> Some v)"

subsection \<open>get_stats\<close>

text \<open>
  The dictionary \<open>stats\<close>: its ten integer entries are the association list \<open>counters\<close>,
  the two \<open>defaultdict(int)\<close> entries are association lists in which a key that is not
  there counts as 0.
\<close>

record py_stats =
  counters :: "(string \<times> int) list"
  by_requester :: "(int option \<times> int) list"
  by_type :: "(string option \<times> int) list"

text \<open>
  \<open>stats[key] += 1\<close>: a key that the dictionary does not hold raises \<open>KeyError\<close>; under
  the keys \<open>'by_requester'\<close> and \<open>'by_type'\<close> it holds a \<open>defaultdict\<close>, to which no
  integer can be added.
\<close>

definition add_one :: "string option \<Rightarrow> py_stats \<Rightarrow> error + py_stats" where
  "add_one key st =
     (case key of
        None \<Rightarrow> Inl (KeyError None)
      | Some k \<Rightarrow>
          if k = ''by_requester'' \<or> k = ''by_type'' then Inl TypeError
          else
            (case map_of (counters st) k of
               None \<Rightarrow> Inl (KeyError (Some k))
             | Some v \<Rightarrow> Inr (st\<lparr> counters := AList.update k (v + 1) (counters st) \<rparr>)))"

text \<open>\<open>d[key] += 1\<close> on a \<open>defaultdict(int)\<close>\<close>

definition tally :: "'k \<Rightarrow> ('k \<times> int) list \<Rightarrow> ('k \<times> int) list" where
  "tally key d = AList.update key ((case map_of d key of None \<Rightarrow> 0 | Some v \<Rightarrow> v) + 1) d"

text \<open>The loop \<open>for ticket in tickets\<close>; an exception ends it.\<close>

fun count_tickets :: "ticket list \<Rightarrow> py_stats \<Rightarrow> error + py_stats" where
  "count_tickets [] st = Inr st"
| "count_tickets (t # ts) st =
     (case add_one (get_or (priority t) ''none'') st of
        Inl e \<Rightarrow> Inl e
      | Inr st1 \<Rightarrow>
          (case add_one (get_or (ticket_status t) ''unknown'') st1 of
             Inl e \<Rightarrow> Inl e
           | Inr st2 \<Rightarrow>
               count_tickets ts
                 (st2\<lparr> by_requester := tally (requester_id t) (by_requester st2),
                       by_type := tally (get_or (ticket_type t) ''unknown'') (by_type st2) \<rparr>)))"

definition get_stats :: "ticket list \<Rightarrow> error + py_stats" where
  "get_stats tickets =
     count_tickets tickets
       \<lparr> counters =
           [(''total'', int (length tickets)), (''urgent'', 0), (''high'', 0),
            (''normal'', 0), (''low'', 0), (''new'', 0), (''open'', 0), (''pending'', 0),
            (''solved'', 0), (''closed'', 0)],
         by_requester = [],
         by_type = [] \<rparr>"

subsection \<open>detect_changes\<close>

record status_change =
  sc_ticket :: ticket
  old_status :: "string option"
  new_status :: "string option"

record priority_change =
  pc_ticket :: ticket
  old_priority :: "string option"
  new_priority :: "string option"

record changes =
  new_tickets :: "ticket list"
  status_changes :: "status_change list"
  priority_changes :: "priority_change list"

text \<open>
  A Python dictionary keeps its keys in the order of their first insertion, and a later
  value for a key takes the place of the earlier one: \<open>AList.update\<close> on an association
  list. \<open>self.previous_tickets\<close> is such a dictionary from ticket ids to tickets.
\<close>

type_synonym snapshot = "(int \<times> ticket) list"

text \<open>
  \<open>{t['id']: t for t in current_tickets}\<close>, from the dictionary built so far; \<open>t['id']\<close>
  raises \<open>KeyError\<close> on a ticket without the key.
\<close>

fun build_ids :: "ticket list \<Rightarrow> snapshot \<Rightarrow> error + snapshot" where
  "build_ids [] d = Inr d"
| "build_ids (t # ts) d =
     (case ticket_id t of
        None \<Rightarrow> Inl (KeyError (Some ''id''))
      | Some i \<Rightarrow> build_ids ts (AList.update i t d))"

text \<open>The loop \<open>for ticket_id, ticket in current_ids.items()\<close>.\<close>

fun compare_items :: "snapshot \<Rightarrow> (int \<times> ticket) list \<Rightarrow> changes \<Rightarrow> changes" where
  "compare_items previous_tickets [] ch = ch"
| "compare_items previous_tickets ((tid, t) # items) ch =
     (case map_of previous_tickets tid of
        None \<Rightarrow>
          compare_items previous_tickets items (ch\<lparr> new_tickets := new_tickets ch @ [t] \<rparr>)
      | Some prev \<Rightarrow>
          (let ch1 =
                 (if get (ticket_status prev) \<noteq> get (ticket_status t)
                  then ch\<lparr> status_changes := status_changes ch @
                         [\<lparr> sc_ticket = t, old_status = get (ticket_status prev),
                            new_status = get (ticket_status t) \<rparr>] \<rparr>
                  else ch);
               ch2 =
                 (if get (priority prev) \<noteq> get (priority t)
                  then ch1\<lparr> priority_changes := priority_changes ch1 @
                         [\<lparr> pc_ticket = t, old_priority = get (priority prev),
                            new_priority = get (priority t) \<rparr>] \<rparr>
                  else ch1)
           in compare_items previous_tickets items ch2))"

definition no_changes :: changes where
  "no_changes = \<lparr> new_tickets = [], status_changes = [], priority_changes = [] \<rparr>"

text \<open>
  \<open>detect_changes(self, current_tickets)\<close>: the state \<open>self.previous_tickets\<close> is passed in
  and the new one returned beside the changes. An exception leaves the stored dictionary
  as it was, the assignment being the last statement but one.
\<close>

definition detect_changes :: "snapshot \<Rightarrow> ticket list \<Rightarrow> error + (changes \<times> snapshot)" where
  "detect_changes previous_tickets current_tickets =
     (case build_ids current_tickets [] of
        Inl e \<Rightarrow> Inl e
      | Inr current_ids \<Rightarrow>
          Inr (compare_items previous_tickets current_ids no_changes, current_ids))"

text \<open>\<open>self.previous_tickets = {}\<close> in \<open>__init__\<close>\<close>

definition initial_snapshot :: snapshot where
  "initial_snapshot = []"

section \<open>Notions used in the statements\<close>

text \<open>
  An \<open>apply_sla\<close> event that the resolver can use carries the key \<open>sla\<close>; a stream yields
  an evaluation when it is present in the metric data and holds such an event.
\<close>

definition usable_apply_sla :: "event \<Rightarrow> bool" where
  "usable_apply_sla ev = (e_type ev = Some ''apply_sla'' \<and> e_sla ev \<noteq> None)"

definition yields_evaluation :: "(string \<times> event list) list \<Rightarrow> string \<Rightarrow> bool" where
  "yields_evaluation md mt =
     (case map_of md mt of None \<Rightarrow> False | Some events \<Rightarrow> list_ex usable_apply_sla events)"

text \<open>The breach events of a stream, in the order of the stream.\<close>

definition breach_events :: "event list \<Rightarrow> event list" where
  "breach_events events = filter (\<lambda>ev. e_type ev = Some ''breach'') events"

text \<open>
  The mapping from ids to records of a batch, in the words of the specification: an id is
  mapped to the record of the batch that carries it, the last one should several carry it.
\<close>

definition batch_mapping :: "ticket list \<Rightarrow> int \<Rightarrow> ticket option" where
  "batch_mapping batch i =
     (case filter (\<lambda>t. ticket_id t = Some i) batch of
        [] \<Rightarrow> None
      | ts \<Rightarrow> Some (last ts))"

section \<open>Example inputs\<close>

text \<open>
  A six hour resolution policy, and a ticket created at time 0 that carries its evaluation
  in four states: breached, untouched, breached on the reply metric, and with a target
  of zero or below.
\<close>

definition resolution_eval :: "bool \<Rightarrow> sla_info" where
  "resolution_eval b =
     \<lparr> metric_type = ''resolution_time'', target_seconds = 21600, business_hours = True,
       policy_title = ''Standard'', policy_id = Some 42, fulfilled = False, breached = b,
       breach_time = (if b then Some ''2024-01-01T14:00:00Z'' else None) \<rparr>"

definition reply_eval :: sla_info where
  "reply_eval =
     \<lparr> metric_type = ''reply_time'', target_seconds = 3600, business_hours = False,
       policy_title = ''Standard'', policy_id = Some 42, fulfilled = False, breached = True,
       breach_time = Some ''2024-01-01T09:00:00Z'' \<rparr>"

definition example_ticket :: "string \<Rightarrow> time_value option \<Rightarrow> sla_info option \<Rightarrow> ticket" where
  "example_ticket s c m =
     \<lparr> ticket_id = Some 1, ticket_status = Val s, priority = Val ''urgent'',
       created_at = c, assignee_id = None, requester_id = Some 7,
       ticket_type = Val ''incident'', sla_metrics = m \<rparr>"

text \<open>Metric events: the policy is applied, then breached, then fulfilled.\<close>

definition apply_sla_event :: event where
  "apply_sla_event =
     \<lparr> e_type = Some ''apply_sla'',
       e_sla = Some \<lparr> target_in_seconds = Some 21600, target = None,
                      payload_business_hours = Some True,
                      payload_policy =
                        Some \<lparr> pol_title = Some ''Standard'', pol_id = Some 42 \<rparr> \<rparr>,
       e_time = Some ''2024-01-01T08:00:00Z'' \<rparr>"

definition bare_apply_sla_event :: event where
  "bare_apply_sla_event =
     \<lparr> e_type = Some ''apply_sla'', e_sla = None, e_time = Some ''2024-01-01T08:00:00Z'' \<rparr>"

definition breach_event :: event where
  "breach_event =
     \<lparr> e_type = Some ''breach'', e_sla = None, e_time = Some ''2024-01-01T14:00:00Z'' \<rparr>"

definition untimed_breach_event :: event where
  "untimed_breach_event = \<lparr> e_type = Some ''breach'', e_sla = None, e_time = None \<rparr>"

definition fulfill_event :: event where
  "fulfill_event =
     \<lparr> e_type = Some ''fulfill'', e_sla = None, e_time = Some ''2024-01-01T16:00:00Z'' \<rparr>"

text \<open>Tickets as the monitor receives them.\<close>

definition monitor_ticket :: "int \<Rightarrow> string \<Rightarrow> string field \<Rightarrow> ticket" where
  "monitor_ticket i s p =
     \<lparr> ticket_id = Some i, ticket_status = Val s, priority = p,
       created_at = Some (time_of_ms 0), assignee_id = None, requester_id = Some 7,
       ticket_type = Val ''incident'', sla_metrics = None \<rparr>"

section \<open>Rounding to a double\<close>

lemma rne_error: "\<bar>of_int (rne y) - y\<bar> \<le> 1 / 2"
proof -
  have "of_int \<lfloor>y\<rfloor> \<le> y" "y < of_int \<lfloor>y\<rfloor> + 1" by linarith+
  then show ?thesis
    by (auto simp add: rne_def Let_def abs_le_iff)
qed

lemma rne_of_int: "rne (of_int n) = n"
  by (simp add: rne_def)

lemma rne_nonneg: "0 \<le> y \<Longrightarrow> 0 \<le> rne y"
  by (auto simp add: rne_def Let_def)

lemma rne_nonpos: "y \<le> 0 \<Longrightarrow> rne y \<le> 0"
proof -
  assume y: "y \<le> 0"
  show ?thesis
  proof (cases "y = of_int \<lfloor>y\<rfloor>")
    case True
    then have "rne y = \<lfloor>y\<rfloor>" by (simp add: rne_def)
    then show ?thesis using y by simp
  next
    case False
    then have "of_int \<lfloor>y\<rfloor> < y" by linarith
    with y have "\<lfloor>y\<rfloor> + 1 \<le> 0" by linarith
    then show ?thesis by (auto simp add: rne_def Let_def)
  qed
qed

lemma rne_crude: "\<bar>of_int (rne y) :: rat\<bar> \<le> 2 * \<bar>y\<bar>"
proof (cases "\<bar>y\<bar> < 1 / 2")
  case True
  then have "rne y = 0"
  proof (cases "0 \<le> y")
    case True
    with \<open>\<bar>y\<bar> < 1 / 2\<close> have "\<lfloor>y\<rfloor> = 0" by linarith
    then show ?thesis using True \<open>\<bar>y\<bar> < 1 / 2\<close> by (simp add: rne_def)
  next
    case False
    with \<open>\<bar>y\<bar> < 1 / 2\<close> have f: "\<lfloor>y\<rfloor> = - 1" by linarith
    then show ?thesis using False \<open>\<bar>y\<bar> < 1 / 2\<close> by (simp add: rne_def)
  qed
  then show ?thesis by simp
next
  case False
  then have "1 / 2 \<le> \<bar>y\<bar>" by simp
  moreover have "\<bar>of_int (rne y) :: rat\<bar> \<le> \<bar>y\<bar> + 1 / 2"
    using rne_error [of y] by linarith
  ultimately show ?thesis by linarith
qed


lemma expo_lower:
  assumes "x \<noteq> 0"
  shows "power_int 2 (expo x) \<le> \<bar>x\<bar>"
proof -
  obtain p q where pq: "quotient_of \<bar>x\<bar> = (p, q)" by (cases "quotient_of \<bar>x\<bar>")
  then have q: "0 < q" by (rule quotient_of_denom_pos)
  have ax: "\<bar>x\<bar> = of_int p / of_int q" using pq by (rule quotient_of_div)
  have "0 < \<bar>x\<bar>" using assms by simp
  then have p: "0 < p" using ax q by (simp add: zero_less_divide_iff)
  let ?e = "bitlen p - bitlen q"
  show ?thesis
  proof (cases "power_int 2 ?e \<le> \<bar>x\<bar>")
    case True
    then show ?thesis by (simp add: expo_def pq Let_def)
  next
    case False
    then have e: "expo x = ?e - 1" by (simp add: expo_def pq Let_def)
    have bp: "(2::rat) ^ nat (bitlen p - 1) \<le> of_int p"
    proof -
      have "2 ^ nat (bitlen p - 1) \<le> p" using bitlen_bounds [OF p] by simp
      then have "(of_int (2 ^ nat (bitlen p - 1)) :: rat) \<le> of_int p" by (simp only: of_int_le_iff)
      then show ?thesis by simp
    qed
    have bq: "of_int q < (2::rat) ^ nat (bitlen q)"
    proof -
      have "q < 2 ^ nat (bitlen q)" using bitlen_bounds [OF q] by simp
      then have "(of_int q :: rat) < of_int (2 ^ nat (bitlen q))" by (simp only: of_int_less_iff)
      then show ?thesis by simp
    qed
    have p1: "1 \<le> bitlen p" using p by (simp add: bitlen_alt_def)
    have q0: "0 \<le> bitlen q" by (rule bitlen_nonneg)
    have "power_int (2::rat) (?e - 1) = power_int 2 (bitlen p - 1) / power_int 2 (bitlen q)"
      by (simp add: power_int_diff [symmetric] algebra_simps)
    also have "\<dots> = 2 ^ nat (bitlen p - 1) / 2 ^ nat (bitlen q)"
      using p1 q0 by (simp add: power_int_def)
    also have "\<dots> \<le> of_int p / of_int q"
      using bp bq q p by (intro frac_le) (simp_all add: less_imp_le)
    finally show ?thesis using e ax by simp
  qed
qed


lemma to_double_0: "to_double 0 = Num 0"
  by (simp add: to_double_def)

text \<open>The quantum used for x, and the rounded value.\<close>

lemma to_double_cases:
  assumes "x \<noteq> 0"
  obtains q y where "0 < q" "q = power_int 2 (max (expo x) (- 1022) - 52)"
    "y = of_int (rne (x / q)) * q"
    "to_double x = (if 2 ^ 1024 \<le> y then PosInf else if y \<le> - (2 ^ 1024) then NegInf else Num y)"
    "\<bar>y - x\<bar> \<le> q / 2" "\<bar>y\<bar> \<le> 2 * \<bar>x\<bar>"
proof -
  define q :: rat where "q = power_int 2 (max (expo x) (- 1022) - 52)"
  define y where "y = of_int (rne (x / q)) * q"
  have q: "0 < q" by (simp add: q_def)
  have td: "to_double x = (if 2 ^ 1024 \<le> y then PosInf else if y \<le> - (2 ^ 1024) then NegInf else Num y)"
    using assms by (simp add: to_double_def Let_def q_def y_def)
  have "y - x = (of_int (rne (x / q)) - x / q) * q" using q by (simp add: y_def field_simps)
  then have "\<bar>y - x\<bar> = \<bar>of_int (rne (x / q)) - x / q\<bar> * q" using q by (simp add: abs_mult)
  also have "\<dots> \<le> (1 / 2) * q" using rne_error [of "x / q"] q by (intro mult_right_mono) simp_all
  finally have err: "\<bar>y - x\<bar> \<le> q / 2" by simp
  have "\<bar>y\<bar> = \<bar>of_int (rne (x / q)) :: rat\<bar> * q" using q by (simp add: y_def abs_mult)
  also have "\<dots> \<le> (2 * \<bar>x / q\<bar>) * q" using rne_crude [of "x / q"] q by (intro mult_right_mono) simp_all
  also have "\<dots> = 2 * \<bar>x\<bar>" using q by (simp add: abs_divide)
  finally have crude: "\<bar>y\<bar> \<le> 2 * \<bar>x\<bar>" .
  show thesis using that [OF q q_def y_def td err crude] .
qed

lemma to_double_crude:
  assumes "\<bar>x\<bar> < 2 ^ 1023"
  shows "\<exists>y. to_double x = Num y \<and> \<bar>y\<bar> \<le> 2 * \<bar>x\<bar>"
proof (cases "x = 0")
  case True
  then show ?thesis by (simp add: to_double_0)
next
  case False
  then obtain q y where
    td: "to_double x = (if 2 ^ 1024 \<le> y then PosInf else if y \<le> - (2 ^ 1024) then NegInf else Num y)"
    and c: "\<bar>y\<bar> \<le> 2 * \<bar>x\<bar>"
    by (rule to_double_cases)
  have "2 * \<bar>x\<bar> < 2 * 2 ^ 1023" using assms by simp
  also have "\<dots> = (2::rat) ^ 1024" by simp
  finally have "\<bar>y\<bar> < 2 ^ 1024" using c by simp
  then have "\<not> 2 ^ 1024 \<le> y" "\<not> y \<le> - (2 ^ 1024)" by (simp_all add: abs_less_iff)
  with td c show ?thesis by simp
qed

lemma to_double_rel:
  assumes lo: "1 / 2 ^ 1022 \<le> \<bar>x\<bar>" and hi: "\<bar>x\<bar> < 2 ^ 1023"
  shows "\<exists>y. to_double x = Num y \<and> \<bar>y - x\<bar> \<le> \<bar>x\<bar> / 2 ^ 53"
proof -
  have x: "x \<noteq> 0" using lo by auto
  then obtain q y where
    q: "q = power_int 2 (max (expo x) (- 1022) - 52)"
    and td: "to_double x = (if 2 ^ 1024 \<le> y then PosInf else if y \<le> - (2 ^ 1024) then NegInf else Num y)"
    and err: "\<bar>y - x\<bar> \<le> q / 2" and c: "\<bar>y\<bar> \<le> 2 * \<bar>x\<bar>"
    by (rule to_double_cases)
  from to_double_crude [OF hi] td c have num: "to_double x = Num y"
    by (auto split: if_splits)
  have m: "power_int (2::rat) (max (expo x) (- 1022)) \<le> \<bar>x\<bar>"
  proof (cases "expo x \<le> - 1022")
    case True
    then have "max (expo x) (- 1022) = - 1022" by simp
    then show ?thesis using lo by (simp add: power_int_minus_divide)
  next
    case False
    then have "max (expo x) (- 1022) = expo x" by simp
    then show ?thesis using expo_lower [OF x] by simp
  qed
  have "q = power_int 2 (max (expo x) (- 1022)) / 2 ^ 52"
    by (simp add: q power_int_diff)
  then have "q \<le> \<bar>x\<bar> / 2 ^ 52" using m by (simp add: divide_right_mono)
  then have "q / 2 \<le> \<bar>x\<bar> / 2 ^ 53" by simp
  with err num show ?thesis by auto
qed


lemma to_double_of_int:
  assumes "\<bar>n\<bar> < 2 ^ 53"
  shows "to_double (of_int n) = Num (of_int n)"
proof (cases "n = 0")
  case True
  then show ?thesis by (simp add: to_double_0)
next
  case False
  let ?x = "of_int n :: rat"
  have x: "?x \<noteq> 0" using False by simp
  then obtain q y where
    q: "q = power_int 2 (max (expo ?x) (- 1022) - 52)"
    and y: "y = of_int (rne (?x / q)) * q"
    and td: "to_double ?x = (if 2 ^ 1024 \<le> y then PosInf else if y \<le> - (2 ^ 1024) then NegInf else Num y)"
    by (rule to_double_cases)
  have "\<bar>?x\<bar> < 2 ^ 53"
  proof -
    have "(of_int \<bar>n\<bar> :: rat) < of_int (2 ^ 53)" using assms by (simp only: of_int_less_iff)
    then show ?thesis by simp
  qed
  with expo_lower [OF x] have "power_int (2::rat) (expo ?x) < power_int 2 53" by simp
  then have "expo ?x < 53" by (rule power_int_le_imp_less_exp [rotated]) simp_all
  then have k: "0 \<le> 52 - max (expo ?x) (- 1022)" by simp
  define k where "k = nat (52 - max (expo ?x) (- 1022))"
  have "max (expo ?x) (- 1022) - 52 = - int k" using k by (simp add: k_def)
  then have qk: "q = 1 / 2 ^ k" by (simp add: q power_int_minus_divide)
  then have "?x / q = of_int (n * 2 ^ k)" by simp
  then have "rne (?x / q) = n * 2 ^ k" by (simp only: rne_of_int)
  then have yn: "y = ?x" by (simp add: y qk)
  have "\<bar>?x\<bar> < 2 ^ 1024"
  proof -
    have "(2::rat) ^ 53 \<le> 2 ^ 1024" by (rule power_increasing) simp_all
    with \<open>\<bar>?x\<bar> < 2 ^ 53\<close> show ?thesis by linarith
  qed
  then have "\<not> 2 ^ 1024 \<le> ?x" "\<not> ?x \<le> - (2 ^ 1024)" by (simp_all add: abs_less_iff)
  with td yn show ?thesis by simp
qed

lemma to_double_nonneg:
  assumes "0 \<le> x"
  shows "to_double x = PosInf \<or> (\<exists>y. to_double x = Num y \<and> 0 \<le> y)"
proof (cases "x = 0")
  case True
  then show ?thesis by (simp add: to_double_0)
next
  case False
  then obtain q y where q: "0 < q"
    and y: "y = of_int (rne (x / q)) * q"
    and td: "to_double x = (if 2 ^ 1024 \<le> y then PosInf else if y \<le> - (2 ^ 1024) then NegInf else Num y)"
    by (rule to_double_cases)
  have "0 \<le> x / q" using assms q by simp
  then have "0 \<le> rne (x / q)" by (rule rne_nonneg)
  then have "0 \<le> y" using q by (simp add: y)
  then have "\<not> y \<le> - (2 ^ 1024)" by simp
  with td \<open>0 \<le> y\<close> show ?thesis by auto
qed

lemma to_double_nonpos:
  assumes "x \<le> 0"
  shows "to_double x = NegInf \<or> (\<exists>y. to_double x = Num y \<and> y \<le> 0)"
proof (cases "x = 0")
  case True
  then show ?thesis by (simp add: to_double_0)
next
  case False
  then obtain q y where q: "0 < q"
    and y: "y = of_int (rne (x / q)) * q"
    and td: "to_double x = (if 2 ^ 1024 \<le> y then PosInf else if y \<le> - (2 ^ 1024) then NegInf else Num y)"
    by (rule to_double_cases)
  have "x / q \<le> 0" using assms q by (simp add: divide_le_0_iff)
  then have "rne (x / q) \<le> 0" by (rule rne_nonpos)
  then have "y \<le> 0" using q by (simp add: y mult_le_0_iff)
  moreover have "(0::rat) < 2 ^ 1024" by simp
  ultimately have "\<not> 2 ^ 1024 \<le> y" by linarith
  with td \<open>y \<le> 0\<close> show ?thesis by auto
qed






section \<open>Arithmetic on JavaScript numbers\<close>

lemma js_sub_NaN [simp]: "js_sub x NaN = NaN"
  by (cases x) simp_all

lemma js_div_NaN [simp]: "js_div x NaN = NaN"
  by (cases x) simp_all

lemma js_mul_NaN [simp]: "js_mul x NaN = NaN"
  by (cases x) simp_all

lemma js_le_NaN [simp]: "js_le x NaN = False"
  by (cases x) simp_all

lemma to_double_not_NaN [simp]: "to_double x \<noteq> NaN"
  by (simp add: to_double_def Let_def)

lemma to_double_Num_bound:
  assumes "to_double x = Num y"
  shows "\<bar>y\<bar> < 2 ^ 1024"
proof (cases "x = 0")
  case True
  with assms show ?thesis by (simp add: to_double_0)
next
  case False
  then obtain q y' where
    td: "to_double x = (if 2 ^ 1024 \<le> y' then PosInf else if y' \<le> - (2 ^ 1024) then NegInf else Num y')"
    by (rule to_double_cases)
  with assms have "y' = y" "\<not> 2 ^ 1024 \<le> y'" "\<not> y' \<le> - (2 ^ 1024)"
    by (auto split: if_splits)
  then show ?thesis by (simp add: abs_less_iff)
qed

lemma to_double_rel_Num:
  assumes lo: "1 / 2 ^ 1022 \<le> \<bar>x\<bar>" and num: "to_double x = Num y"
  shows "\<bar>y - x\<bar> \<le> \<bar>x\<bar> / 2 ^ 53"
proof -
  have x: "x \<noteq> 0" using lo by auto
  then obtain q y' where
    q: "q = power_int 2 (max (expo x) (- 1022) - 52)"
    and td: "to_double x = (if 2 ^ 1024 \<le> y' then PosInf else if y' \<le> - (2 ^ 1024) then NegInf else Num y')"
    and err: "\<bar>y' - x\<bar> \<le> q / 2"
    by (rule to_double_cases)
  from td num have yy: "y' = y" by (auto split: if_splits)
  have m: "power_int (2::rat) (max (expo x) (- 1022)) \<le> \<bar>x\<bar>"
  proof (cases "expo x \<le> - 1022")
    case True
    then have "max (expo x) (- 1022) = - 1022" by simp
    then show ?thesis using lo by (simp add: power_int_minus_divide)
  next
    case False
    then have "max (expo x) (- 1022) = expo x" by simp
    then show ?thesis using expo_lower [OF x] by simp
  qed
  have "q = power_int 2 (max (expo x) (- 1022)) / 2 ^ 52"
    by (simp add: q power_int_diff)
  then have "q \<le> \<bar>x\<bar> / 2 ^ 52" using m by (simp add: divide_right_mono)
  then have "q / 2 \<le> \<bar>x\<bar> / 2 ^ 53" by simp
  with err yy show ?thesis by auto
qed

lemma to_double_half:
  assumes lo: "1 / 2 ^ 1022 \<le> \<bar>x\<bar>" and num: "to_double x = Num y"
  shows "\<bar>x\<bar> / 2 \<le> \<bar>y\<bar>"
proof -
  have "\<bar>x\<bar> / 2 ^ 53 \<le> \<bar>x\<bar> / 2"
    by (rule divide_left_mono) simp_all
  with to_double_rel_Num [OF lo num] show ?thesis by linarith
qed

lemma to_double_bounded:
  assumes "\<bar>x\<bar> \<le> B" "B < 2 ^ 1023"
  shows "\<exists>y. to_double x = Num y \<and> \<bar>y\<bar> \<le> 2 * B"
proof -
  have "\<bar>x\<bar> < 2 ^ 1023" using assms by linarith
  from to_double_crude [OF this] obtain y where "to_double x = Num y" "\<bar>y\<bar> \<le> 2 * \<bar>x\<bar>"
    by blast
  with assms(1) show ?thesis by auto
qed

lemma js_le_0_to_double: "x \<le> 0 \<Longrightarrow> js_le (to_double x) (Num 0)"
  using to_double_nonpos [of x] by auto

lemma js_ge_0_to_double: "0 \<le> x \<Longrightarrow> js_le (Num 0) (to_double x)"
  using to_double_nonneg [of x] by auto

lemma js_div_nonpos:
  assumes "js_le v (Num 0)" "0 < b"
  shows "js_le (js_div v (Num b)) (Num 0)"
proof (cases v)
  case (Num a)
  with assms have "a / b \<le> 0" by (simp add: divide_le_0_iff)
  then show ?thesis using Num assms(2) by (simp add: js_le_0_to_double)
qed (use assms in simp_all)

lemma js_div_nonneg:
  assumes "js_le (Num 0) v" "0 < b"
  shows "js_le (Num 0) (js_div v (Num b))"
proof (cases v)
  case (Num a)
  with assms have "0 \<le> a / b" by simp
  then show ?thesis using Num assms(2) by (simp add: js_ge_0_to_double)
qed (use assms in simp_all)

lemma js_sub_nonpos:
  assumes "js_le x (Num 0)" "js_le (Num 0) y"
  shows "js_le (js_sub x y) (Num 0)"
proof (cases x)
  case (Num a)
  note a = this
  show ?thesis
  proof (cases y)
    case (Num b)
    with a assms have "a - b \<le> 0" by simp
    then show ?thesis using a Num by (simp add: js_le_0_to_double)
  qed (use a assms in simp_all)
next
  case NegInf
  then show ?thesis using assms by (cases y) simp_all
qed (use assms in simp_all)

section \<open>The metric resolver\<close>

subsection \<open>The two inner loops and the outer loop\<close>

lemma find_apply_sla_None:
  "find_apply_sla events = None \<longleftrightarrow> \<not> list_ex usable_apply_sla events"
  by (induction events) (auto simp add: usable_apply_sla_def)

lemma stream_info_None:
  "stream_info mt events = None \<longleftrightarrow> \<not> list_ex usable_apply_sla events"
proof (cases "find_apply_sla events")
  case None
  then show ?thesis using find_apply_sla_None [of events] by (simp add: stream_info_def)
next
  case (Some d)
  then show ?thesis using find_apply_sla_None [of events]
    by (simp add: stream_info_def split: prod.splits)
qed

lemma stream_info_metric_type: "stream_info mt events = Some i \<Longrightarrow> metric_type i = mt"
  by (auto simp add: stream_info_def split: option.splits prod.splits)

lemma scan_events_fulfilled:
  "fst (scan_events events (f, b)) \<longleftrightarrow> f \<or> (\<exists>ev \<in> set events. e_type ev = Some ''fulfill'')"
  by (induction events arbitrary: f b) auto

lemma scan_events_breach_time:
  "snd (scan_events events (f, b)) =
     (if breach_events events = [] then b else e_time (last (breach_events events)))"
  by (induction events arbitrary: f b) (auto simp add: breach_events_def)

lemma stream_info_flags:
  assumes "stream_info mt events = Some i"
  shows "fulfilled i = fst (scan_events events (False, None))"
    and "breached i = (snd (scan_events events (False, None)) \<noteq> None)"
  using assms by (auto simp add: stream_info_def split: option.splits prod.splits)

text \<open>The outer loop over the two metric types, unrolled.\<close>

lemma parse_streams_two:
  "parse_streams [''resolution_time'', ''reply_time''] md =
     (case (case map_of md ''resolution_time'' of None \<Rightarrow> None
            | Some events \<Rightarrow> stream_info ''resolution_time'' events) of
        Some i \<Rightarrow> Some i
      | None \<Rightarrow>
          (case map_of md ''reply_time'' of None \<Rightarrow> None
           | Some events \<Rightarrow> stream_info ''reply_time'' events))"
  by (simp split: option.splits)

lemma parse_sla_metrics_Some:
  "parse_sla_metrics (Some md) st = parse_streams [''resolution_time'', ''reply_time''] md"
  by (cases md) (simp_all add: parse_sla_metrics_def)

text \<open>An evaluation that is returned comes from the stream of its own metric type.\<close>

lemma parse_sla_metrics_stream:
  assumes "parse_sla_metrics md st = Some i"
  shows "\<exists>d events. md = Some d \<and> map_of d (metric_type i) = Some events
           \<and> stream_info (metric_type i) events = Some i"
proof -
  from assms obtain d where d: "md = Some d"
    by (cases md) (simp_all add: parse_sla_metrics_def)
  have p: "parse_streams [''resolution_time'', ''reply_time''] d = Some i"
    using assms d by (simp only: parse_sla_metrics_Some)
  show ?thesis
  proof (cases "case map_of d ''resolution_time'' of None \<Rightarrow> None
            | Some events \<Rightarrow> stream_info ''resolution_time'' events")
    case None
    with p obtain events where
      e: "map_of d ''reply_time'' = Some events" "stream_info ''reply_time'' events = Some i"
      by (auto simp only: parse_streams_two split: option.splits)
    then have "metric_type i = ''reply_time''" by (simp add: stream_info_metric_type)
    with d e show ?thesis by simp
  next
    case (Some j)
    with p have ij: "j = i" by (simp only: parse_streams_two option.case option.inject)
    from Some obtain events where
      e: "map_of d ''resolution_time'' = Some events"
         "stream_info ''resolution_time'' events = Some j"
      by (auto split: option.splits)
    then have "metric_type j = ''resolution_time''" by (simp add: stream_info_metric_type)
    with d e ij show ?thesis by simp
  qed
qed

subsection \<open>Precedence of the metric types\<close>

text \<open>
  Claim C4, as stated, fails: a \<open>resolution_time\<close> stream whose \<open>apply_sla\<close> event lacks the
  key \<open>sla\<close> contains an \<open>apply_sla\<close> event, and the resolver still falls back to the
  \<open>reply_time\<close> stream, because the search asks for \<open>'sla' in event\<close> as well.
\<close>

theorem apply_sla_without_payload_falls_back:
  "e_type bare_apply_sla_event = Some ''apply_sla''
   \<and> map_of [(''resolution_time'', [bare_apply_sla_event]),
              (''reply_time'', [apply_sla_event])] ''resolution_time''
       = Some [bare_apply_sla_event]
   \<and> map_option metric_type
        (parse_sla_metrics
           (Some [(''resolution_time'', [bare_apply_sla_event]),
                  (''reply_time'', [apply_sla_event])]) (Some ''open''))
       = Some ''reply_time''"
  by (simp add: parse_sla_metrics_def stream_info_def bare_apply_sla_event_def
      apply_sla_event_def)

text \<open>
  Claim C4, amended: the resolver returns the evaluation of the \<open>resolution_time\<close> stream
  when that stream holds an \<open>apply_sla\<close> event that carries an \<open>sla\<close> payload; it returns
  the evaluation of the \<open>reply_time\<close> stream when the \<open>resolution_time\<close> stream is absent or
  holds no such event and the \<open>reply_time\<close> stream holds one; it returns none when
  neither stream holds one, and when there is no metric data.
\<close>

theorem resolver_precedence:
  "(yields_evaluation md ''resolution_time'' \<longrightarrow>
      (\<exists>events i. map_of md ''resolution_time'' = Some events
         \<and> stream_info ''resolution_time'' events = Some i
         \<and> metric_type i = ''resolution_time''
         \<and> parse_sla_metrics (Some md) st = Some i))
   \<and> (\<not> yields_evaluation md ''resolution_time'' \<and> yields_evaluation md ''reply_time'' \<longrightarrow>
      (\<exists>events i. map_of md ''reply_time'' = Some events
         \<and> stream_info ''reply_time'' events = Some i
         \<and> metric_type i = ''reply_time''
         \<and> parse_sla_metrics (Some md) st = Some i))
   \<and> (\<not> yields_evaluation md ''resolution_time'' \<and> \<not> yields_evaluation md ''reply_time'' \<longrightarrow>
      parse_sla_metrics (Some md) st = None)
   \<and> parse_sla_metrics None st = None"
proof -
  have res: "(case map_of md ''resolution_time'' of None \<Rightarrow> None
            | Some events \<Rightarrow> stream_info ''resolution_time'' events) = None"
    if "\<not> yields_evaluation md ''resolution_time''"
    using that by (simp add: yields_evaluation_def stream_info_None split: option.splits)
  have rep: "(case map_of md ''reply_time'' of None \<Rightarrow> None
            | Some events \<Rightarrow> stream_info ''reply_time'' events) = None"
    if "\<not> yields_evaluation md ''reply_time''"
    using that by (simp add: yields_evaluation_def stream_info_None split: option.splits)
  have found: "\<exists>events i. map_of md mt = Some events \<and> stream_info mt events = Some i
      \<and> metric_type i = mt"
    if "yields_evaluation md mt" for mt
  proof -
    from that obtain events where
      ev: "map_of md mt = Some events" "list_ex usable_apply_sla events"
      by (auto simp add: yields_evaluation_def split: option.splits)
    then obtain i where "stream_info mt events = Some i"
      using stream_info_None [of mt events] by auto
    with ev show ?thesis using stream_info_metric_type by blast
  qed
  have A: "\<exists>events i. map_of md ''resolution_time'' = Some events
         \<and> stream_info ''resolution_time'' events = Some i
         \<and> metric_type i = ''resolution_time''
         \<and> parse_sla_metrics (Some md) st = Some i"
    if "yields_evaluation md ''resolution_time''"
  proof -
    from found [OF that] obtain events i where
      h: "map_of md ''resolution_time'' = Some events"
         "stream_info ''resolution_time'' events = Some i"
         "metric_type i = ''resolution_time''"
      by blast
    then have "parse_sla_metrics (Some md) st = Some i"
      by (simp add: parse_sla_metrics_Some parse_streams_two del: parse_streams.simps)
    with h show ?thesis by blast
  qed
  have B: "\<exists>events i. map_of md ''reply_time'' = Some events
         \<and> stream_info ''reply_time'' events = Some i
         \<and> metric_type i = ''reply_time''
         \<and> parse_sla_metrics (Some md) st = Some i"
    if n: "\<not> yields_evaluation md ''resolution_time''"
      and y: "yields_evaluation md ''reply_time''"
  proof -
    from found [OF y] obtain events i where
      h: "map_of md ''reply_time'' = Some events"
         "stream_info ''reply_time'' events = Some i" "metric_type i = ''reply_time''"
      by blast
    then have "parse_sla_metrics (Some md) st = Some i"
      by (simp add: parse_sla_metrics_Some parse_streams_two res [OF n]
          del: parse_streams.simps)
    with h show ?thesis by blast
  qed
  have C: "parse_sla_metrics (Some md) st = None"
    if n: "\<not> yields_evaluation md ''resolution_time''"
      and n': "\<not> yields_evaluation md ''reply_time''"
    by (simp add: parse_sla_metrics_Some parse_streams_two res [OF n] rep [OF n']
        del: parse_streams.simps)
  have D: "parse_sla_metrics None st = None"
    by (simp add: parse_sla_metrics_def)
  show ?thesis using A B C D by blast
qed

text \<open>
  The three cases at concrete metric data: both streams usable, only the \<open>reply_time\<close>
  stream usable (the \<open>resolution_time\<close> stream holds a breach event alone), and an
  \<open>apply_sla\<close> event without payload as the only event.
\<close>

theorem resolver_precedence_witness:
  "yields_evaluation [(''resolution_time'', [apply_sla_event, breach_event]),
                      (''reply_time'', [apply_sla_event])] ''resolution_time''
   \<and> map_option metric_type
        (parse_sla_metrics
           (Some [(''resolution_time'', [apply_sla_event, breach_event]),
                  (''reply_time'', [apply_sla_event])]) (Some ''open''))
       = Some ''resolution_time''
   \<and> yields_evaluation [(''resolution_time'', [breach_event]),
                        (''reply_time'', [apply_sla_event])] ''reply_time''
   \<and> map_option metric_type
        (parse_sla_metrics
           (Some [(''resolution_time'', [breach_event]),
                  (''reply_time'', [apply_sla_event])]) (Some ''open''))
       = Some ''reply_time''
   \<and> parse_sla_metrics (Some [(''resolution_time'', [bare_apply_sla_event])]) (Some ''open'')
       = None"
proof -
  let ?m1 = "[(''resolution_time'', [apply_sla_event, breach_event]),
              (''reply_time'', [apply_sla_event])]"
  let ?m2 = "[(''resolution_time'', [breach_event]), (''reply_time'', [apply_sla_event])]"
  let ?m3 = "[(''resolution_time'', [bare_apply_sla_event])]"
  have y1: "yields_evaluation ?m1 ''resolution_time''"
    by (simp add: yields_evaluation_def usable_apply_sla_def apply_sla_event_def)
  have y2: "\<not> yields_evaluation ?m2 ''resolution_time''" "yields_evaluation ?m2 ''reply_time''"
    by (simp_all add: yields_evaluation_def usable_apply_sla_def apply_sla_event_def
        breach_event_def)
  have y3: "\<not> yields_evaluation ?m3 ''resolution_time''" "\<not> yields_evaluation ?m3 ''reply_time''"
    by (simp_all add: yields_evaluation_def usable_apply_sla_def bare_apply_sla_event_def)
  have a: "map_option metric_type (parse_sla_metrics (Some ?m1) (Some ''open''))
      = Some ''resolution_time''"
    using resolver_precedence [of ?m1 "Some ''open''"] y1 by auto
  have b: "map_option metric_type (parse_sla_metrics (Some ?m2) (Some ''open''))
      = Some ''reply_time''"
    using resolver_precedence [of ?m2 "Some ''open''"] y2 by auto
  have c: "parse_sla_metrics (Some ?m3) (Some ''open'') = None"
    using resolver_precedence [of ?m3 "Some ''open''"] y3 by blast
  from y1 y2(2) a b c show ?thesis by simp
qed

subsection \<open>The flags of an evaluation\<close>

text \<open>
  What the second loop leaves in the evaluation that is returned: the fulfilled flag is
  set as soon as a fulfill event is seen; the breached flag is not set on seeing a breach
  event, it is \<open>breach_time is not None\<close>, and \<open>breach_time\<close> is \<open>event.get('time')\<close> of the
  last breach event of the stream.
\<close>

lemma returned_flags:
  assumes "parse_sla_metrics md st = Some i"
  shows "\<exists>d events. md = Some d \<and> map_of d (metric_type i) = Some events
     \<and> list_ex usable_apply_sla events
     \<and> (fulfilled i \<longleftrightarrow> (\<exists>ev \<in> set events. e_type ev = Some ''fulfill''))
     \<and> (breached i \<longleftrightarrow>
          breach_events events \<noteq> [] \<and> e_time (last (breach_events events)) \<noteq> None)"
proof -
  from parse_sla_metrics_stream [OF assms] obtain d events where
    d: "md = Some d" and ev: "map_of d (metric_type i) = Some events"
    and si: "stream_info (metric_type i) events = Some i"
    by blast
  have u: "list_ex usable_apply_sla events"
    using si stream_info_None [of "metric_type i" events] by auto
  have f: "fulfilled i \<longleftrightarrow> (\<exists>ev \<in> set events. e_type ev = Some ''fulfill'')"
    using stream_info_flags(1) [OF si] scan_events_fulfilled [of events False None] by simp
  have b: "breached i \<longleftrightarrow>
          breach_events events \<noteq> [] \<and> e_time (last (breach_events events)) \<noteq> None"
    using stream_info_flags(2) [OF si] scan_events_breach_time [of events False None]
    by simp
  from d ev u f b show ?thesis by blast
qed

text \<open>
  Claim C7: the breached flag is not true exactly when a breach event is observed. In a
  stream in which the policy is applied and then breached, the evaluation has the flag
  false when the breach event carries no time; and a breach that was recorded with its
  time is forgotten when a breach event without time follows it. The fulfilled flag of
  the same loop is set on sight of the event, as the claim says of both flags.
\<close>

theorem untimed_breach_not_flagged:
  "e_type untimed_breach_event = Some ''breach''
   \<and> map_option breached
        (parse_sla_metrics
           (Some [(''resolution_time'', [apply_sla_event, untimed_breach_event])])
           (Some ''open''))
       = Some False
   \<and> map_option breached
        (parse_sla_metrics
           (Some [(''resolution_time'',
                   [apply_sla_event, breach_event, untimed_breach_event, fulfill_event])])
           (Some ''solved''))
       = Some False
   \<and> map_option fulfilled
        (parse_sla_metrics
           (Some [(''resolution_time'',
                   [apply_sla_event, breach_event, untimed_breach_event, fulfill_event])])
           (Some ''solved''))
       = Some True
   \<and> map_option breached
        (parse_sla_metrics
           (Some [(''resolution_time'', [apply_sla_event, breach_event, fulfill_event])])
           (Some ''solved''))
       = Some True"
  by (simp add: parse_sla_metrics_def stream_info_def untimed_breach_event_def
      apply_sla_event_def breach_event_def fulfill_event_def)

section \<open>The dashboard classification\<close>

subsection \<open>Tickets that are solved or closed\<close>

text \<open>
  Claim C1: a solved ticket with a breached \<open>resolution_time\<close> evaluation is classified
  \<open>breach\<close>, and yet no badge is rendered for it. For a solved or closed ticket
  \<open>getSLAStatus\<close> passes the raw \<open>metric_type\<close> on as \<open>metricType\<close>, and \<open>renderSLABadge\<close>
  hides every breach whose \<open>metricType\<close> is not the label \<open>Resolution\<close>, which only the
  branch for open tickets produces: the same ticket, while open, gets its badge.
\<close>

theorem solved_breach_badge_hidden:
  "status (getSLAStatus now (example_ticket ''solved'' (Some (time_of_ms 0)) (Some (resolution_eval True))))
     = ''breach''
   \<and> metricType
        (getSLAStatus now (example_ticket ''solved'' (Some (time_of_ms 0)) (Some (resolution_eval True))))
     = Some ''resolution_time''
   \<and> renderSLABadge now (example_ticket ''solved'' (Some (time_of_ms 0)) (Some (resolution_eval True)))
     = []
   \<and> renderSLABadge now (example_ticket ''open'' (Some (time_of_ms 0)) (Some (resolution_eval True)))
     \<noteq> []"
  by (simp add: renderSLABadge_def getSLAStatus_def example_ticket_def resolution_eval_def
      solved_or_closed_def Let_def)

subsection \<open>The numbers of an open ticket\<close>

lemma ms_bound: "\<bar>ms c\<bar> \<le> 8640000000000000"
  using ms [of c] by simp

text \<open>The age is NaN or a finite number of bounded magnitude.\<close>

lemma ageMinutes_cases:
  "ageMinutes now t = NaN \<or> (\<exists>g. ageMinutes now t = Num g \<and> \<bar>g\<bar> \<le> 1152000000000)"
proof (cases "created_at t")
  case None
  then show ?thesis by (simp add: ageMinutes_def)
next
  case (Some c)
  let ?A = "of_int (ms now) - of_int (ms c) :: rat"
  have "\<bar>?A\<bar> \<le> \<bar>of_int (ms now)\<bar> + \<bar>of_int (ms c) :: rat\<bar>" by (rule abs_triangle_ineq4)
  moreover have "\<bar>of_int (ms now) :: rat\<bar> \<le> 8640000000000000"
    using ms_bound [of now] by (metis of_int_abs of_int_le_iff of_int_numeral)
  moreover have "\<bar>of_int (ms c) :: rat\<bar> \<le> 8640000000000000"
    using ms_bound [of c] by (metis of_int_abs of_int_le_iff of_int_numeral)
  ultimately have A: "\<bar>?A\<bar> \<le> 17280000000000000" by linarith
  have "(17280000000000000::rat) < 2 ^ 1023" by simp
  from to_double_bounded [OF A this] obtain a where
    a: "to_double ?A = Num a" "\<bar>a\<bar> \<le> 34560000000000000" by auto
  have "\<bar>a / 60000\<bar> \<le> 576000000000" using a(2) by simp
  moreover have "(576000000000::rat) < 2 ^ 1023" by simp
  ultimately obtain g where g: "to_double (a / 60000) = Num g" "\<bar>g\<bar> \<le> 1152000000000"
    using to_double_bounded [of "a / 60000" 576000000000] by auto
  have "ageMinutes now t = Num g"
    using Some a(1) g(1) by (simp add: ageMinutes_def)
  with g(2) show ?thesis by blast
qed


text \<open>The target in minutes, for a target other than zero.\<close>

lemma slaTargetMinutes_cases:
  assumes "target_seconds m \<noteq> 0"
  shows "slaTargetMinutes m = PosInf \<or> slaTargetMinutes m = NegInf
       \<or> (\<exists>s. slaTargetMinutes m = Num s \<and> 1 / 240 \<le> \<bar>s\<bar> \<and> \<bar>s\<bar> < 2 ^ 1024 / 30)"
proof -
  let ?x = "of_int (target_seconds m) :: rat"
  have "1 \<le> \<bar>target_seconds m\<bar>" using assms by simp
  then have x1: "1 \<le> \<bar>?x\<bar>" by (metis of_int_1_le_iff of_int_abs)
  have lo: "1 / 2 ^ 1022 \<le> \<bar>?x\<bar>"
  proof -
    have "(1::rat) / 2 ^ 1022 \<le> 1" by simp
    with x1 show ?thesis by linarith
  qed
  show ?thesis
  proof (cases "to_double ?x")
    case (Num t0)
    have half: "1 / 2 \<le> \<bar>t0\<bar>" using to_double_half [OF lo Num] x1 by linarith
    have top: "\<bar>t0\<bar> < 2 ^ 1024" using Num by (rule to_double_Num_bound)
    have b: "\<bar>t0 / 60\<bar> \<le> \<bar>t0\<bar> / 60" by simp
    have "\<bar>t0\<bar> / 60 < 2 ^ 1023" using top by simp
    from to_double_bounded [OF b this] obtain s where
      s: "to_double (t0 / 60) = Num s" "\<bar>s\<bar> \<le> 2 * (\<bar>t0\<bar> / 60)" by blast
    have lo': "1 / 2 ^ 1022 \<le> \<bar>t0 / 60\<bar>"
    proof -
      have "(1::rat) / 2 ^ 1022 \<le> 1 / 120" by simp
      moreover have "1 / 120 \<le> \<bar>t0 / 60\<bar>" using half by simp
      ultimately show ?thesis by linarith
    qed
    have "1 / 240 \<le> \<bar>s\<bar>" using to_double_half [OF lo' s(1)] half by simp
    moreover have "\<bar>s\<bar> < 2 ^ 1024 / 30" using s(2) top by simp
    moreover have "slaTargetMinutes m = Num s"
      using Num s(1) by (simp add: slaTargetMinutes_def)
    ultimately show ?thesis by blast
  next
    case PosInf
    then show ?thesis by (simp add: slaTargetMinutes_def)
  next
    case NegInf
    then show ?thesis by (simp add: slaTargetMinutes_def)
  next
    case NaN
    then show ?thesis by simp
  qed
qed

lemma percentRemaining_not_infinite:
  assumes "target_seconds m \<noteq> 0"
  shows "percentRemaining now t m \<noteq> PosInf \<and> percentRemaining now t m \<noteq> NegInf"
proof -
  consider (nan) "ageMinutes now t = NaN"
    | (num) g where "ageMinutes now t = Num g" "\<bar>g\<bar> \<le> 1152000000000"
    using ageMinutes_cases [of now t] by blast
  then show ?thesis
  proof cases
    case nan
    then show ?thesis by (simp add: percentRemaining_def remaining_minutes_def)
  next
    case num
    consider (pinf) "slaTargetMinutes m = PosInf" | (ninf) "slaTargetMinutes m = NegInf"
      | (fin) s where "slaTargetMinutes m = Num s" "1 / 240 \<le> \<bar>s\<bar>" "\<bar>s\<bar> < 2 ^ 1024 / 30"
      using slaTargetMinutes_cases [OF assms] by blast
    then show ?thesis
    proof cases
      case pinf
      then show ?thesis using num(1) by (simp add: percentRemaining_def remaining_minutes_def)
    next
      case ninf
      then show ?thesis using num(1) by (simp add: percentRemaining_def remaining_minutes_def)
    next
      case fin
      have s0: "s \<noteq> 0" using fin(2) by auto
      have sg: "\<bar>s - g\<bar> \<le> \<bar>s\<bar> + 1152000000000"
        using num(2) abs_triangle_ineq4 [of s g] by linarith
      have "\<bar>s\<bar> + 1152000000000 < 2 ^ 1023" using fin(3) by simp
      from to_double_bounded [OF sg this] obtain r where
        r: "to_double (s - g) = Num r" "\<bar>r\<bar> \<le> 2 * (\<bar>s\<bar> + 1152000000000)" by blast
      have "\<bar>r / s\<bar> = \<bar>r\<bar> / \<bar>s\<bar>" by simp
      also have "\<dots> \<le> (2 * (\<bar>s\<bar> + 1152000000000)) / \<bar>s\<bar>"
        using r(2) s0 by (simp add: divide_right_mono)
      also have "\<dots> = 2 + 2304000000000 / \<bar>s\<bar>"
        using s0 by (simp add: field_simps)
      also have "\<dots> \<le> 2 + 2304000000000 / (1 / 240)"
        using fin(2) by (intro add_left_mono divide_left_mono) simp_all
      finally have rs: "\<bar>r / s\<bar> \<le> 552960000000002" by simp
      have "(552960000000002::rat) < 2 ^ 1023" by simp
      from to_double_bounded [OF rs this] obtain d where
        d: "to_double (r / s) = Num d" "\<bar>d\<bar> \<le> 1105920000000004" by auto
      have d100: "\<bar>d * 100\<bar> \<le> 110592000000000400" using d(2) by simp
      have "(110592000000000400::rat) < 2 ^ 1023" by simp
      from to_double_bounded [OF d100 this] obtain p where
        p: "to_double (d * 100) = Num p" by auto
      have "percentRemaining now t m = Num p"
        using num(1) fin(1) r(1) d(1) p s0
        by (simp add: percentRemaining_def remaining_minutes_def)
      then show ?thesis by simp
    qed
  qed
qed











subsection \<open>Tickets that are still open\<close>




subsection \<open>A target of zero or below\<close>

text \<open>
  Claim C5, as stated, fails for a target of zero: the test
  \<open>slaMetrics && slaMetrics.target_seconds\<close> is false of it, and the open ticket gets the
  status \<open>none\<close> (No SLA), whether its breached flag is set or not.
\<close>

theorem zero_target_is_no_sla:
  "\<not> solved_or_closed
       (ticket_status
          (example_ticket ''open'' (Some (time_of_ms 0))
             (Some ((resolution_eval True)\<lparr> target_seconds := 0 \<rparr>))))
   \<and> status
        (getSLAStatus (time_of_ms 36000000)
           (example_ticket ''open'' (Some (time_of_ms 0))
              (Some ((resolution_eval True)\<lparr> target_seconds := 0 \<rparr>))))
     = ''none''
   \<and> status
        (getSLAStatus (time_of_ms 36000000)
           (example_ticket ''open'' (Some (time_of_ms 0))
              (Some ((resolution_eval False)\<lparr> target_seconds := 0 \<rparr>))))
     = ''none''"
  by (simp add: getSLAStatus_def example_ticket_def resolution_eval_def solved_or_closed_def
      no_sla_def)

text \<open>
  Claim C5, amended: for a ticket that is neither solved nor closed and has an evaluation,
  a target of zero gives the status \<open>none\<close> (the result for a ticket without SLA data); a
  negative target gives \<open>breach\<close> when the creation time is there and not later than now;
  and no division by zero takes place: whenever the target is not zero, the divisor
  \<open>slaTargetMinutes\<close> is not zero and the quotient \<open>percentRemaining\<close> is not an infinity.
\<close>

theorem nonpositive_target_classification:
  assumes "\<not> solved_or_closed (ticket_status t)"
    and "sla_metrics t = Some m"
  shows "(target_seconds m = 0 \<longrightarrow> getSLAStatus now t = no_sla)
       \<and> (target_seconds m < 0 \<and> (\<exists>c. created_at t = Some c \<and> ms c \<le> ms now) \<longrightarrow>
            status (getSLAStatus now t) = ''breach''
            \<and> label (getSLAStatus now t) = ''Breached'')
       \<and> (target_seconds m \<noteq> 0 \<longrightarrow>
            slaTargetMinutes m \<noteq> Num 0 \<and> percentRemaining now t m \<noteq> PosInf
            \<and> percentRemaining now t m \<noteq> NegInf)"
proof -
  have zero: "getSLAStatus now t = no_sla" if "target_seconds m = 0"
    using assms that by (simp add: getSLAStatus_def)
  have neg: "status (getSLAStatus now t) = ''breach''
      \<and> label (getSLAStatus now t) = ''Breached''"
    if h: "target_seconds m < 0" and c: "created_at t = Some c" "ms c \<le> ms now" for c
  proof -
    have "(of_int (target_seconds m) :: rat) \<le> 0" using h by simp
    then have "js_le (to_double (of_int (target_seconds m))) (Num 0)"
      by (rule js_le_0_to_double)
    then have stm: "js_le (slaTargetMinutes m) (Num 0)"
      unfolding slaTargetMinutes_def by (rule js_div_nonpos) simp
    have "(0::rat) \<le> of_int (ms now) - of_int (ms c)" using c(2) by simp
    then have "js_le (Num 0) (to_double (of_int (ms now) - of_int (ms c)))"
      by (rule js_ge_0_to_double)
    then have "js_le (Num 0) (js_div (to_double (of_int (ms now) - of_int (ms c))) (Num (1000 * 60)))"
      by (rule js_div_nonneg) simp
    then have age: "js_le (Num 0) (ageMinutes now t)"
      using c(1) by (simp add: ageMinutes_def)
    have le: "js_le (remaining_minutes now t m) (Num 0)"
      unfolding remaining_minutes_def using stm age by (rule js_sub_nonpos)
    show ?thesis
      using assms h le by (simp add: getSLAStatus_def Let_def)
  qed
  have nz: "slaTargetMinutes m \<noteq> Num 0 \<and> percentRemaining now t m \<noteq> PosInf
            \<and> percentRemaining now t m \<noteq> NegInf" if "target_seconds m \<noteq> 0"
  proof -
    have "slaTargetMinutes m \<noteq> Num 0"
      using slaTargetMinutes_cases [OF that] by auto
    with percentRemaining_not_infinite [OF that, of now t] show ?thesis by simp
  qed
  show ?thesis using zero neg nz by blast
qed

text \<open>
  An open ticket with a target of zero, and one with a target of minus one minute, one
  second after its creation.
\<close>

theorem nonpositive_target_classification_witness:
  "getSLAStatus (time_of_ms 1000)
     (example_ticket ''open'' (Some (time_of_ms 0)) (Some ((resolution_eval False)\<lparr> target_seconds := 0 \<rparr>)))
     = no_sla
   \<and> status
       (getSLAStatus (time_of_ms 1000)
          (example_ticket ''open'' (Some (time_of_ms 0))
             (Some ((resolution_eval False)\<lparr> target_seconds := - 60 \<rparr>))))
     = ''breach''
   \<and> slaTargetMinutes ((resolution_eval False)\<lparr> target_seconds := - 60 \<rparr>) = Num (- 1)"
proof -
  let ?m0 = "(resolution_eval False)\<lparr> target_seconds := 0 \<rparr>"
  let ?m1 = "(resolution_eval False)\<lparr> target_seconds := - 60 \<rparr>"
  let ?t0 = "example_ticket ''open'' (Some (time_of_ms 0)) (Some ?m0)"
  let ?t1 = "example_ticket ''open'' (Some (time_of_ms 0)) (Some ?m1)"
  have h0: "\<not> solved_or_closed (ticket_status ?t0)" "sla_metrics ?t0 = Some ?m0"
    by (simp_all add: example_ticket_def solved_or_closed_def)
  have h1: "\<not> solved_or_closed (ticket_status ?t1)" "sla_metrics ?t1 = Some ?m1"
    by (simp_all add: example_ticket_def solved_or_closed_def)
  have c1: "target_seconds ?m1 < 0 \<and> (\<exists>c. created_at ?t1 = Some c \<and> ms c \<le> ms (time_of_ms 1000))"
    by (simp add: example_ticket_def time_of_ms_inverse)
  have a: "getSLAStatus (time_of_ms 1000) ?t0 = no_sla"
    using nonpositive_target_classification [OF h0, of "time_of_ms 1000"] by simp
  have b: "status (getSLAStatus (time_of_ms 1000) ?t1) = ''breach''"
    using nonpositive_target_classification [OF h1, of "time_of_ms 1000"] c1 by blast
  have c: "slaTargetMinutes ?m1 = Num (- 1)"
    using to_double_of_int [of "- 60"] to_double_of_int [of "- 1"]
    by (simp add: slaTargetMinutes_def)
  from a b c show ?thesis by simp
qed

subsection \<open>A missing creation time\<close>

text \<open>
  Claim C6, as stated, fails: without a creation time the age is NaN, and nothing in
  \<open>getSLAStatus\<close> tests for it. An open ticket with an evaluation then is \<open>breach\<close> when
  the breached flag is set, and otherwise \<open>ok\<close>, every comparison with NaN being false;
  it is not \<open>none\<close>.
\<close>

theorem missing_created_at_not_none:
  "created_at (example_ticket ''open'' None (Some (resolution_eval True))) = None
   \<and> status (getSLAStatus (time_of_ms 36000000) (example_ticket ''open'' None (Some (resolution_eval True))))
       = ''breach''
   \<and> status (getSLAStatus (time_of_ms 36000000) (example_ticket ''open'' None (Some (resolution_eval False))))
       = ''ok''"
  by (simp add: getSLAStatus_def example_ticket_def resolution_eval_def solved_or_closed_def
      Let_def remaining_minutes_def percentRemaining_def slaTargetMinutes_def ageMinutes_def)

text \<open>
  Claim C6, amended: for a ticket that is neither solved nor closed and has no creation
  time, the status is \<open>none\<close> exactly when the ticket has no evaluation or the target of
  its evaluation is zero; with an evaluation whose target is not zero and whose breached
  flag is set, the status is \<open>breach\<close>.
\<close>

theorem missing_created_at_classification:
  assumes "\<not> solved_or_closed (ticket_status t)"
    and "created_at t = None"
  shows "(status (getSLAStatus now t) = ''none'' \<longleftrightarrow>
            (case sla_metrics t of None \<Rightarrow> True | Some m \<Rightarrow> target_seconds m = 0))
       \<and> (\<forall>m. sla_metrics t = Some m \<and> target_seconds m \<noteq> 0 \<and> breached m \<longrightarrow>
            status (getSLAStatus now t) = ''breach'')"
  using assms by (auto simp add: getSLAStatus_def Let_def no_sla_def split: option.splits)

text \<open>
  A ticket without creation time: with a breached six hour evaluation, and with no
  evaluation at all.
\<close>

theorem missing_created_at_classification_witness:
  "status (getSLAStatus (time_of_ms 36000000) (example_ticket ''open'' None (Some (resolution_eval True))))
     = ''breach''
   \<and> status (getSLAStatus (time_of_ms 36000000) (example_ticket ''open'' None None)) = ''none''"
proof -
  let ?t = "example_ticket ''open'' None (Some (resolution_eval True))"
  let ?u = "example_ticket ''open'' None None"
  have h: "\<not> solved_or_closed (ticket_status ?t)" "created_at ?t = None"
    by (simp_all add: example_ticket_def solved_or_closed_def)
  have k: "\<not> solved_or_closed (ticket_status ?u)" "created_at ?u = None"
    by (simp_all add: example_ticket_def solved_or_closed_def)
  have m: "sla_metrics ?t = Some (resolution_eval True)
      \<and> target_seconds (resolution_eval True) \<noteq> 0 \<and> breached (resolution_eval True)"
    by (simp add: example_ticket_def resolution_eval_def)
  have a: "status (getSLAStatus (time_of_ms 36000000) ?t) = ''breach''"
    using missing_created_at_classification [OF h, of "time_of_ms 36000000"] m by blast
  have "sla_metrics ?u = None" by (simp add: example_ticket_def)
  then have b: "status (getSLAStatus (time_of_ms 36000000) ?u) = ''none''"
    using missing_created_at_classification [OF k, of "time_of_ms 36000000"] by simp
  from a b show ?thesis by simp
qed

subsection \<open>Breaches of the reply time\<close>

lemma reply_breach_metricType:
  assumes "sla_metrics t = Some m" "metric_type m = ''reply_time''"
    and "status (getSLAStatus now t) = ''breach''"
  shows "metricType (getSLAStatus now t) \<noteq> Some ''Resolution''"
proof (cases "solved_or_closed (ticket_status t)")
  case True
  then show ?thesis using assms(1,2) by (simp add: getSLAStatus_def)
next
  case False
  show ?thesis
  proof (cases "target_seconds m = 0")
    case True
    then show ?thesis using False assms(1) by (simp add: getSLAStatus_def no_sla_def)
  next
    case nz: False
    then show ?thesis using False assms(1,2) by (simp add: getSLAStatus_def Let_def)
  qed
qed

text \<open>A ticket whose evaluation is not of the resolution time leaves the buckets alone.\<close>

lemma sla_count_ticket_not_resolution:
  assumes "sla_metrics t = Some m" "metric_type m \<noteq> ''resolution_time''"
  shows "sla (count_ticket now t st) = sla st"
proof (cases "assignee_id t")
  case None
  then show ?thesis using assms by (simp add: count_ticket_def Let_def)
next
  case (Some a)
  then show ?thesis using assms by (simp add: count_ticket_def Let_def)
qed

text \<open>The buckets after a ticket depend on the buckets before it and on nothing else.\<close>

lemma sla_count_ticket_cong:
  assumes "sla st = sla st'"
  shows "sla (count_ticket now t st) = sla (count_ticket now t st')"
proof (cases "assignee_id t")
  case None
  then show ?thesis using assms by (simp add: count_ticket_def Let_def)
next
  case (Some a)
  then show ?thesis using assms by (simp add: count_ticket_def Let_def)
qed

lemma sla_fold_cong:
  "sla st = sla st' \<Longrightarrow>
   sla (fold (\<lambda>(now, t) st. count_ticket now t st) ts st) =
   sla (fold (\<lambda>(now, t) st. count_ticket now t st) ts st')"
proof (induction ts arbitrary: st st')
  case Nil
  then show ?case by simp
next
  case (Cons p ts)
  obtain now t where p: "p = (now, t)" by (cases p)
  have "sla (count_ticket now t st) = sla (count_ticket now t st')"
    using Cons.prems by (rule sla_count_ticket_cong)
  then have "sla (fold (\<lambda>(now, t) st. count_ticket now t st) ts (count_ticket now t st)) =
    sla (fold (\<lambda>(now, t) st. count_ticket now t st) ts (count_ticket now t st'))"
    by (rule Cons.IH)
  then show ?case
    by (simp add: p)
qed

text \<open>
  Claim C2: a ticket whose evaluation is of the reply time and which is classified
  \<open>breach\<close> gets no badge (the empty string), and the breached bucket of a batch is the
  same with the ticket, wherever it stands in the batch, as without it.
\<close>

theorem reply_time_breach_not_surfaced:
  assumes "sla_metrics t = Some m"
    and "metric_type m = ''reply_time''"
    and "status (getSLAStatus now t) = ''breach''"
  shows "renderSLABadge now t = []
       \<and> sla_breached (sla (calculateStats (before @ (now', t) # after))) =
           sla_breached (sla (calculateStats (before @ after)))"
proof -
  have badge: "renderSLABadge now t = []"
    using reply_breach_metricType [OF assms] assms(3)
    by (simp add: renderSLABadge_def Let_def)
  let ?f = "\<lambda>(now, t) st. count_ticket now t st"
  let ?a = "fold ?f before (initial_stats (length (before @ (now', t) # after)))"
  let ?b = "fold ?f before (initial_stats (length (before @ after)))"
  have ab: "sla ?a = sla ?b"
    by (rule sla_fold_cong) (simp add: initial_stats_def)
  have "sla (count_ticket now' t ?a) = sla ?a"
    using assms(1,2) by (simp add: sla_count_ticket_not_resolution)
  with ab have "sla (count_ticket now' t ?a) = sla ?b" by simp
  then have "sla (fold ?f after (count_ticket now' t ?a)) = sla (fold ?f after ?b)"
    by (rule sla_fold_cong)
  then have "sla (calculateStats (before @ (now', t) # after)) =
      sla (calculateStats (before @ after))"
    by (simp add: calculateStats_def)
  with badge show ?thesis by simp
qed

text \<open>
  An open ticket with a breached reply time evaluation, in a batch behind an open ticket
  with a breached resolution time evaluation: no badge, and one breach in the bucket.
\<close>

theorem reply_time_breach_not_surfaced_witness:
  "status (getSLAStatus (time_of_ms 36000000) (example_ticket ''open'' (Some (time_of_ms 0)) (Some reply_eval)))
     = ''breach''
   \<and> renderSLABadge (time_of_ms 36000000) (example_ticket ''open'' (Some (time_of_ms 0)) (Some reply_eval)) = []
   \<and> sla_breached
       (sla (calculateStats
          [(time_of_ms 36000000, example_ticket ''open'' (Some (time_of_ms 0)) (Some (resolution_eval True))),
           (time_of_ms 36000001, example_ticket ''open'' (Some (time_of_ms 0)) (Some reply_eval))]))
     = 1"
proof -
  let ?t = "example_ticket ''open'' (Some (time_of_ms 0)) (Some reply_eval)"
  let ?r = "example_ticket ''open'' (Some (time_of_ms 0)) (Some (resolution_eval True))"
  have h: "sla_metrics ?t = Some reply_eval" "metric_type reply_eval = ''reply_time''"
    "status (getSLAStatus (time_of_ms 36000000) ?t) = ''breach''"
    by (simp_all add: example_ticket_def reply_eval_def getSLAStatus_def
        solved_or_closed_def Let_def)
  have one: "sla_breached (sla (calculateStats [(time_of_ms 36000000, ?r)])) = 1"
    by (simp add: calculateStats_def count_ticket_def initial_stats_def or_default_def
        getSLAStatus_def example_ticket_def resolution_eval_def solved_or_closed_def
        Let_def)
  from reply_time_breach_not_surfaced [OF h, of "[(time_of_ms 36000000, ?r)]" "time_of_ms 36000001" "[]"]
  have "renderSLABadge (time_of_ms 36000000) ?t = []
    \<and> sla_breached (sla (calculateStats [(time_of_ms 36000000, ?r), (time_of_ms 36000001, ?t)])) =
        sla_breached (sla (calculateStats [(time_of_ms 36000000, ?r)]))"
    by simp
  with h(3) one show ?thesis by simp
qed

section \<open>The monitor\<close>

subsection \<open>The dictionary of the current tickets\<close>

lemma build_ids_total:
  "\<forall>t \<in> set ts. ticket_id t \<noteq> None \<Longrightarrow> \<exists>s. build_ids ts d = Inr s"
  by (induction ts arbitrary: d) auto

lemma build_ids_distinct:
  "build_ids ts d = Inr s \<Longrightarrow> distinct (map fst d) \<Longrightarrow> distinct (map fst s)"
  by (induction ts arbitrary: d) (auto simp add: distinct_update split: option.splits)

lemma batch_mapping_Nil: "batch_mapping [] i = None"
  by (simp add: batch_mapping_def)

lemma batch_mapping_Cons:
  "batch_mapping (t # ts) i =
     (case batch_mapping ts i of
        Some u \<Rightarrow> Some u
      | None \<Rightarrow> if ticket_id t = Some i then Some t else None)"
  by (auto simp add: batch_mapping_def split: list.splits)

text \<open>The comprehension refines the mapping of the batch, laid over what was there.\<close>

lemma build_ids_map_of:
  "build_ids ts d = Inr s \<Longrightarrow>
   map_of s i = (case batch_mapping ts i of Some u \<Rightarrow> Some u | None \<Rightarrow> map_of d i)"
proof (induction ts arbitrary: d)
  case Nil
  then show ?case by (simp add: batch_mapping_Nil)
next
  case (Cons t ts)
  from Cons.prems obtain k where k: "ticket_id t = Some k"
    and b: "build_ids ts (AList.update k t d) = Inr s"
    by (auto split: option.splits)
  have "map_of s i =
      (case batch_mapping ts i of Some u \<Rightarrow> Some u | None \<Rightarrow> map_of (AList.update k t d) i)"
    using b by (rule Cons.IH)
  then show ?case
    using k by (simp add: batch_mapping_Cons update_conv' split: option.splits)
qed

lemma build_ids_keys:
  "build_ids ts d = Inr s \<Longrightarrow>
   set (map fst s) = set (map fst d) \<union> {i. Some i \<in> ticket_id ` set ts}"
proof (induction ts arbitrary: d)
  case Nil
  then show ?case by simp
next
  case (Cons t ts)
  from Cons.prems obtain k where k: "ticket_id t = Some k"
    and b: "build_ids ts (AList.update k t d) = Inr s"
    by (auto split: option.splits)
  have "set (map fst s) =
      set (map fst (AList.update k t d)) \<union> {i. Some i \<in> ticket_id ` set ts}"
    using b by (rule Cons.IH)
  moreover have "set (map fst (AList.update k t d)) = insert k (set (map fst d))"
    using dom_update [of k t d] by simp
  ultimately show ?case using k by auto
qed

lemma build_ids_values:
  "build_ids ts d = Inr s \<Longrightarrow> set (map snd s) \<subseteq> set (map snd d) \<union> set ts"
proof (induction ts arbitrary: d)
  case Nil
  then show ?case by simp
next
  case (Cons t ts)
  from Cons.prems obtain k where k: "ticket_id t = Some k"
    and b: "build_ids ts (AList.update k t d) = Inr s"
    by (auto split: option.splits)
  have u: "set (map snd (AList.update k t d)) \<subseteq> insert t (set (map snd d))"
    by (induction d) auto
  have "set (map snd s) \<subseteq> set (map snd (AList.update k t d)) \<union> set ts"
    using b by (rule Cons.IH)
  with u have "set (map snd s) \<subseteq> insert t (set (map snd d)) \<union> set ts"
    by blast
  then show ?case by (simp only: list.set) blast
qed

lemma update_fresh: "k \<notin> fst ` set d \<Longrightarrow> AList.update k v d = d @ [(k, v)]"
  by (induction d) auto

text \<open>A batch of distinct ids is stored as it is, in its order.\<close>

lemma build_ids_distinct_batch:
  "distinct (map ticket_id ts) \<Longrightarrow> \<forall>t \<in> set ts. ticket_id t \<noteq> None \<Longrightarrow>
   \<forall>t \<in> set ts. ticket_id t \<notin> Some ` fst ` set d \<Longrightarrow>
   \<exists>s. build_ids ts d = Inr s \<and> map snd s = map snd d @ ts"
proof (induction ts arbitrary: d)
  case Nil
  then show ?case by simp
next
  case (Cons t ts)
  from Cons.prems(2) obtain k where k: "ticket_id t = Some k" by auto
  have fresh: "k \<notin> fst ` set d" using Cons.prems(3) k by auto
  have upd: "AList.update k t d = d @ [(k, t)]" using fresh by (rule update_fresh)
  have notk: "ticket_id u \<noteq> Some k" if "u \<in> set ts" for u
    using Cons.prems(1) k that by (metis distinct.simps(2) image_eqI list.simps(9) set_map)
  have "\<forall>u \<in> set ts. ticket_id u \<notin> Some ` fst ` set (d @ [(k, t)])"
    using Cons.prems(3) notk by auto
  with Cons.IH [of "d @ [(k, t)]"] Cons.prems(1,2)
  obtain s where "build_ids ts (d @ [(k, t)]) = Inr s"
    "map snd s = map snd (d @ [(k, t)]) @ ts"
    by auto
  then show ?case using k upd by simp
qed

subsection \<open>The comparison loop\<close>

lemma compare_items_same:
  "distinct (map fst d) \<Longrightarrow> set items \<subseteq> set d \<Longrightarrow> compare_items d items ch = ch"
proof (induction items arbitrary: ch)
  case Nil
  then show ?case by simp
next
  case (Cons p items)
  obtain k t where p: "p = (k, t)" by (cases p)
  have "(k, t) \<in> set d" using Cons.prems(2) p by simp
  then have "map_of d k = Some t" using Cons.prems(1) by simp
  moreover have "compare_items d items ch = ch"
    using Cons.prems by (intro Cons.IH) auto
  ultimately show ?case by (simp add: p)
qed

lemma compare_items_empty:
  "compare_items [] items ch = ch\<lparr> new_tickets := new_tickets ch @ map snd items \<rparr>"
proof (induction items arbitrary: ch)
  case Nil
  then show ?case by simp
next
  case (Cons p items)
  obtain k t where p: "p = (k, t)" by (cases p)
  show ?case by (simp add: p Cons.IH)
qed

subsection \<open>Idempotence\<close>

text \<open>
  Claim C8: for a batch whose tickets all carry an id, and any stored snapshot, the call
  of \<open>detect_changes\<close> returns, and a second call on the same batch, from the snapshot
  that the first one stored, returns no new tickets, no status changes and no priority
  changes, and stores the same snapshot again.
\<close>

theorem detect_changes_idempotent:
  assumes "\<forall>t \<in> set batch. ticket_id t \<noteq> None"
  shows "\<exists>ch s. detect_changes previous_tickets batch = Inr (ch, s)
           \<and> detect_changes s batch = Inr (no_changes, s)"
proof -
  from build_ids_total [OF assms] obtain s where s: "build_ids batch [] = Inr s"
    by blast
  have "distinct (map fst s)"
    using s by (rule build_ids_distinct) simp
  then have "compare_items s s no_changes = no_changes"
    by (rule compare_items_same) simp
  then have "detect_changes s batch = Inr (no_changes, s)"
    using s by (simp add: detect_changes_def)
  moreover have "detect_changes previous_tickets batch =
      Inr (compare_items previous_tickets s no_changes, s)"
    using s by (simp add: detect_changes_def)
  ultimately show ?thesis by blast
qed

text \<open>
  Ticket 5 went from pending to open and ticket 6 is new; the second call on the same
  batch reports nothing.
\<close>

theorem detect_changes_idempotent_witness:
  "detect_changes [(5, monitor_ticket 5 ''pending'' (Val ''normal''))]
     [monitor_ticket 5 ''open'' (Val ''normal''), monitor_ticket 6 ''new'' Absent]
   = Inr (\<lparr> new_tickets = [monitor_ticket 6 ''new'' Absent],
            status_changes =
              [\<lparr> sc_ticket = monitor_ticket 5 ''open'' (Val ''normal''),
                 old_status = Some ''pending'', new_status = Some ''open'' \<rparr>],
            priority_changes = [] \<rparr>,
          [(5, monitor_ticket 5 ''open'' (Val ''normal'')),
           (6, monitor_ticket 6 ''new'' Absent)])
   \<and> detect_changes
       [(5, monitor_ticket 5 ''open'' (Val ''normal'')), (6, monitor_ticket 6 ''new'' Absent)]
       [monitor_ticket 5 ''open'' (Val ''normal''), monitor_ticket 6 ''new'' Absent]
     = Inr (no_changes,
            [(5, monitor_ticket 5 ''open'' (Val ''normal'')),
             (6, monitor_ticket 6 ''new'' Absent)])"
proof -
  let ?b = "[monitor_ticket 5 ''open'' (Val ''normal''), monitor_ticket 6 ''new'' Absent]"
  let ?p = "[(5, monitor_ticket 5 ''pending'' (Val ''normal''))]"
  let ?s = "[(5, monitor_ticket 5 ''open'' (Val ''normal'')),
             (6, monitor_ticket 6 ''new'' Absent)]"
  have ids: "\<forall>t \<in> set ?b. ticket_id t \<noteq> None"
    by (simp add: monitor_ticket_def)
  have first: "detect_changes ?p ?b
      = Inr (\<lparr> new_tickets = [monitor_ticket 6 ''new'' Absent],
               status_changes =
                 [\<lparr> sc_ticket = monitor_ticket 5 ''open'' (Val ''normal''),
                    old_status = Some ''pending'', new_status = Some ''open'' \<rparr>],
               priority_changes = [] \<rparr>, ?s)"
    by (simp add: detect_changes_def monitor_ticket_def no_changes_def get_def)
  from detect_changes_idempotent [OF ids, of ?p] obtain ch s where
    "detect_changes ?p ?b = Inr (ch, s)" "detect_changes s ?b = Inr (no_changes, s)"
    by blast
  with first have "detect_changes ?s ?b = Inr (no_changes, ?s)"
    by simp
  with first show ?thesis by simp
qed

subsection \<open>The first cycle\<close>

text \<open>
  Claim C9: from the empty snapshot, and for a batch whose tickets all carry an id,
  \<open>detect_changes\<close> returns; the ids of the new tickets are the ids of the batch, every new
  ticket is a record of the batch, and the new tickets are the batch itself when its ids
  are distinct; there are no status changes and no priority changes; the snapshot stored
  is the mapping from ids to records of the batch, and it is the same whatever was
  stored before (a replacement, not a merge).
\<close>

theorem first_cycle_all_new:
  assumes "\<forall>t \<in> set batch. ticket_id t \<noteq> None"
  shows "\<exists>ch s. detect_changes initial_snapshot batch = Inr (ch, s)
           \<and> ticket_id ` set (new_tickets ch) = ticket_id ` set batch
           \<and> set (new_tickets ch) \<subseteq> set batch
           \<and> (distinct (map ticket_id batch) \<longrightarrow> new_tickets ch = batch)
           \<and> status_changes ch = [] \<and> priority_changes ch = []
           \<and> map_of s = batch_mapping batch
           \<and> (\<forall>previous_tickets. \<exists>ch'.
                 detect_changes previous_tickets batch = Inr (ch', s))"
proof -
  from build_ids_total [OF assms] obtain s where s: "build_ids batch [] = Inr s"
    by blast
  let ?ch = "compare_items [] s no_changes"
  have dc: "detect_changes initial_snapshot batch = Inr (?ch, s)"
    using s by (simp add: detect_changes_def initial_snapshot_def)
  have ch: "?ch = \<lparr> new_tickets = map snd s, status_changes = [], priority_changes = [] \<rparr>"
    by (simp add: compare_items_empty no_changes_def)
  have m: "map_of s = batch_mapping batch"
  proof
    fix i
    show "map_of s i = batch_mapping batch i"
      using build_ids_map_of [OF s, of i] by (simp split: option.splits)
  qed
  have sub: "set (map snd s) \<subseteq> set batch"
    using build_ids_values [OF s] by simp
  have ds: "distinct (map fst s)"
    using s by (rule build_ids_distinct) simp
  have key: "ticket_id t = Some k" if "(k, t) \<in> set s" for k t
  proof -
    from that ds have "map_of s k = Some t" by simp
    then have "batch_mapping batch k = Some t" by (simp add: m)
    then obtain ts where
      ts: "filter (\<lambda>t. ticket_id t = Some k) batch = ts" "ts \<noteq> []" "last ts = t"
      by (auto simp add: batch_mapping_def split: list.splits)
    then have "t \<in> set (filter (\<lambda>t. ticket_id t = Some k) batch)"
      using last_in_set by blast
    then show ?thesis by simp
  qed
  have ids: "ticket_id ` set (map snd s) = ticket_id ` set batch"
  proof
    show "ticket_id ` set (map snd s) \<subseteq> ticket_id ` set batch"
      using sub by blast
    show "ticket_id ` set batch \<subseteq> ticket_id ` set (map snd s)"
    proof
      fix x assume "x \<in> ticket_id ` set batch"
      then obtain t where t: "t \<in> set batch" "x = ticket_id t" by blast
      with assms obtain k where k: "ticket_id t = Some k" by auto
      then have "k \<in> set (map fst s)"
        using build_ids_keys [OF s] t by force
      then obtain u where u: "(k, u) \<in> set s" by auto
      then have "ticket_id u = Some k" by (rule key)
      moreover have "u \<in> set (map snd s)" using u by force
      ultimately show "x \<in> ticket_id ` set (map snd s)" using t k by force
    qed
  qed
  have dist: "map snd s = batch" if "distinct (map ticket_id batch)"
  proof -
    from build_ids_distinct_batch [OF that assms, of "[]"]
    obtain s' where "build_ids batch [] = Inr s'" "map snd s' = batch" by auto
    with s show ?thesis by simp
  qed
  have repl: "\<exists>ch'. detect_changes previous_tickets batch = Inr (ch', s)"
    for previous_tickets
    using s by (simp add: detect_changes_def)
  show ?thesis
    using dc ch m sub ids dist repl by (intro exI [of _ ?ch] exI [of _ s]) simp
qed

text \<open>The first cycle on a batch of two tickets.\<close>

theorem first_cycle_all_new_witness:
  "detect_changes initial_snapshot
     [monitor_ticket 5 ''open'' (Val ''normal''), monitor_ticket 6 ''new'' Absent]
   = Inr (\<lparr> new_tickets =
              [monitor_ticket 5 ''open'' (Val ''normal''), monitor_ticket 6 ''new'' Absent],
            status_changes = [], priority_changes = [] \<rparr>,
          [(5, monitor_ticket 5 ''open'' (Val ''normal'')),
           (6, monitor_ticket 6 ''new'' Absent)])"
proof -
  let ?b = "[monitor_ticket 5 ''open'' (Val ''normal''), monitor_ticket 6 ''new'' Absent]"
  let ?s = "[(5, monitor_ticket 5 ''open'' (Val ''normal'')),
             (6, monitor_ticket 6 ''new'' Absent)]"
  have ids: "\<forall>t \<in> set ?b. ticket_id t \<noteq> None"
    by (simp add: monitor_ticket_def)
  have d: "distinct (map ticket_id ?b)"
    by (simp add: monitor_ticket_def)
  have b: "build_ids ?b [] = Inr ?s"
    by (simp add: monitor_ticket_def)
  from first_cycle_all_new [OF ids] obtain ch s where
    r: "detect_changes initial_snapshot ?b = Inr (ch, s)"
      "distinct (map ticket_id ?b) \<longrightarrow> new_tickets ch = ?b"
      "status_changes ch = []" "priority_changes ch = []"
    by blast
  from r(1) b have "s = ?s"
    by (simp add: detect_changes_def)
  moreover from r(2) d have "new_tickets ch = ?b" by blast
  ultimately have "(ch, s) =
      (\<lparr> new_tickets = ?b, status_changes = [], priority_changes = [] \<rparr>, ?s)"
    using r(3,4) by simp
  with r(1) show ?thesis by simp
qed

subsection \<open>The statistics\<close>

text \<open>
  Claim C10: \<open>get_stats\<close> does raise. A ticket without priority is counted under the
  default \<open>'none'\<close>, and a ticket on hold under \<open>'hold'\<close>; the dictionary \<open>stats\<close> has
  neither key, and \<open>stats[key] += 1\<close> raises \<open>KeyError\<close>. The same holds of a priority
  that is \<open>null\<close>, for which \<open>get\<close> returns \<open>None\<close>.
\<close>

theorem get_stats_raises_KeyError:
  "get_stats [monitor_ticket 6 ''new'' Absent] = Inl (KeyError (Some ''none''))
   \<and> get_stats [monitor_ticket 5 ''hold'' (Val ''normal'')] = Inl (KeyError (Some ''hold''))
   \<and> get_stats [monitor_ticket 7 ''open'' Null] = Inl (KeyError None)"
  by (simp add: get_stats_def add_one_def get_or_def monitor_ticket_def)

end
